theory Spec2Isabelle
  imports Main
begin

section \<open>The leads resource handler (backend/api/blueprints/leads.py)\<close>

text \<open>
  The module is request-handling glue: each handler builds the text of one SQL statement,
  executes it and maps the rows to a JSON answer. The model follows that shape. The HTTP
  request is the data the handler reads from it (the query arguments, the JSON body), the
  SQL statement is the statement's template together with the text fragments the handler
  formats into it, and the database is a value that the executing functions read and return
  updated.

  Text is \<^typ>\<open>string\<close>, a list of 8-bit characters. The model covers ASCII text: on it
  \<open>str.lower\<close>, \<open>str.strip\<close>, \<open>str.split\<close> and \<open>repr\<close> are what the
  functions below compute.
\<close>

subsection \<open>Python's string operations\<close>

text \<open>The lower-case form of one character: the 26 capital letters change.\<close>

definition char_lower :: "char \<Rightarrow> char" where
  "char_lower c =
     (case map_of (zip ''ABCDEFGHIJKLMNOPQRSTUVWXYZ'' ''abcdefghijklmnopqrstuvwxyz'') c of
        None \<Rightarrow> c
      | Some l \<Rightarrow> l)"

text \<open>\<open>s.lower()\<close>\<close>

definition lower :: "string \<Rightarrow> string" where
  "lower s = map char_lower s"

text \<open>The characters \<open>str.strip()\<close> removes: tab, line feed, vertical tab, form feed,
  carriage return, the four separators 28 to 31, and the space.\<close>

definition is_space :: "char \<Rightarrow> bool" where
  "is_space c =
     (c \<in> set [CHR 0x09, CHR 0x0A, CHR 0x0B, CHR 0x0C, CHR 0x0D,
                CHR 0x1C, CHR 0x1D, CHR 0x1E, CHR 0x1F, CHR 0x20])"

text \<open>\<open>s.strip()\<close>\<close>

definition strip :: "string \<Rightarrow> string" where
  "strip s = rev (dropWhile is_space (rev (dropWhile is_space s)))"

text \<open>\<open>s.split(c)\<close> for a separator of one character: never the empty list.\<close>

fun split :: "char \<Rightarrow> string \<Rightarrow> string list" where
  "split c [] = [[]]"
| "split c (x # xs) =
     (if x = c then [] # split c xs
      else (case split c xs of [] \<Rightarrow> [[x]] | w # ws \<Rightarrow> (x # w) # ws))"

text \<open>\<open>sep.join(xs)\<close>\<close>

fun join :: "string \<Rightarrow> string list \<Rightarrow> string" where
  "join sep [] = []"
| "join sep [x] = x"
| "join sep (x # y # ys) = x @ sep @ join sep (y # ys)"

text \<open>\<open>str(n)\<close> for an integer: its decimal digits, with a minus sign below zero.\<close>

definition digit :: "nat \<Rightarrow> char" where
  "digit n = ''0123456789abcdef'' ! n"

fun str_nat :: "nat \<Rightarrow> string" where
  "str_nat n = (if n < 10 then [digit n] else str_nat (n div 10) @ [digit (n mod 10)])"

definition str_int :: "int \<Rightarrow> string" where
  "str_int i = (if i < 0 then CHR ''-'' # str_nat (nat (- i)) else str_nat (nat i))"

text \<open>\<open>repr(s)\<close> for a string: single quotes, unless the text has a single quote and no
  double quote; the quote and the backslash are escaped, tab, line feed and carriage
  return are written \<open>\t\<close>, \<open>\n\<close>, \<open>\r\<close>, and the other control characters
  as \<open>\xhh\<close>.\<close>

definition repr_char :: "char \<Rightarrow> char \<Rightarrow> string" where
  "repr_char q c =
     (let n = (of_char c :: nat) in
      if c = q \<or> c = CHR 0x5C then [CHR 0x5C, c]
      else if c = CHR 0x09 then [CHR 0x5C, CHR ''t'']
      else if c = CHR 0x0A then [CHR 0x5C, CHR ''n'']
      else if c = CHR 0x0D then [CHR 0x5C, CHR ''r'']
      else if n < 32 \<or> n = 127 then [CHR 0x5C, CHR ''x'', digit (n div 16), digit (n mod 16)]
      else [c])"

definition repr :: "string \<Rightarrow> string" where
  "repr s =
     (let q = (if CHR 0x27 \<in> set s \<and> CHR 0x22 \<notin> set s then CHR 0x22 else CHR 0x27)
      in [q] @ concat (map (repr_char q) s) @ [q])"

subsection \<open>JSON values and dictionaries\<close>

text \<open>
  The value of a field: what a JSON body pairs with a key, what a column of a row holds
  and what \<open>getattr(row, field)\<close> gives. \<open>JNull\<close> is Python's \<open>None\<close> and
  SQL's \<open>NULL\<close>. Numbers with a fraction, arrays and objects as field values are
  outside the model.
\<close>

datatype jvalue = JNull | JBool bool | JInt int | JStr string

text \<open>The JSON document a handler answers with.\<close>

datatype json = JVal jvalue | JArray "json list" | JObject "(string \<times> json) list"

text \<open>A Python \<open>dict\<close> with string keys: its items in insertion order, no key twice.\<close>

type_synonym 'v dict = "(string \<times> 'v) list"

text \<open>\<open>d[k] = v\<close>: a key the dictionary has keeps its place, a new one goes last.\<close>

fun dict_set :: "'v dict \<Rightarrow> string \<Rightarrow> 'v \<Rightarrow> 'v dict" where
  "dict_set [] k v = [(k, v)]"
| "dict_set ((k', v') # d) k v =
     (if k' = k then (k', v) # d else (k', v') # dict_set d k v)"

text \<open>\<open>{k: v for (k, v) in items}\<close>\<close>

definition dict_of_items :: "(string \<times> 'v) list \<Rightarrow> 'v dict" where
  "dict_of_items items = foldl (\<lambda>d (k, v). dict_set d k v) [] items"

text \<open>\<open>d.get(k)\<close> and \<open>d.keys()\<close>\<close>

definition dict_get :: "'v dict \<Rightarrow> string \<Rightarrow> 'v option" where
  "dict_get d k = map_of d k"

definition keys :: "'v dict \<Rightarrow> string list" where
  "keys d = map fst d"

text \<open>The truth value Python gives a field value in \<open>if data_source:\<close>.\<close>

fun truthy :: "jvalue \<Rightarrow> bool" where
  "truthy JNull = False"
| "truthy (JBool b) = b"
| "truthy (JInt i) = (i \<noteq> 0)"
| "truthy (JStr s) = (s \<noteq> [])"

text \<open>\<open>str(v)\<close>\<close>

fun py_str :: "jvalue \<Rightarrow> string" where
  "py_str JNull = ''None''"
| "py_str (JBool b) = (if b then ''True'' else ''False'')"
| "py_str (JInt i) = str_int i"
| "py_str (JStr s) = s"

text \<open>A dictionary of field values as a JSON object.\<close>

definition json_of_dict :: "jvalue dict \<Rightarrow> json" where
  "json_of_dict d = JObject (map (\<lambda>(k, v). (k, JVal v)) d)"

subsection \<open>The module's constants\<close>

definition DEFAULT_LEAD_FIELDS :: "string list" where
  "DEFAULT_LEAD_FIELDS =
     [''id'', ''company_name'', ''company_address'', ''formation_date'', ''contact_name'',
      ''website'', ''phone'', ''email'', ''twitter'', ''facebook'', ''linkedin'',
      ''last_email'', ''last_google_search'', ''last_twitter_search'',
      ''last_facebook_search'', ''last_linkedin_search'', ''instagram'',
      ''mission_statement'', ''programs'', ''populations_served'', ''county'',
      ''colorado_region'', ''data_source'']"

definition VALID_DATA_SOURCES :: "string list" where
  "VALID_DATA_SOURCES = [''socrata'', ''colorado_nonprofit_association'', ''user_entry'']"

subsection \<open>The database\<close>

text \<open>
  The database layer (\<open>..db\<close>) and the schema of the \<open>leads\<close> table are not part of
  the module. The definitions of this subsection model them from the spec: one table whose
  columns are the fixed field set, \<open>id\<close> its server-generated key, every other column
  nullable. A stored row gives each column its value. A value bound to a statement is
  stored as it is: the types of the columns and any further constraint of the schema are
  not modelled.
\<close>

type_synonym row = "string \<Rightarrow> jvalue"

text \<open>A row as a statement returns it: the selected columns and their values.\<close>

type_synonym result_row = "string \<rightharpoonup> jvalue"

record database =
  leads :: "row list"
  next_id :: int

datatype error =
    SyntaxError
  | UndefinedColumn
  | ParameterError
  | UniqueViolation
  | AttributeError

text \<open>
  Modelled from the spec: PostgreSQL's full-text search, which the module only names in
  its search statement. \<open>tsquery_ok s\<close> says whether the statement formatted with the
  search text \<open>s\<close> is well formed, \<open>ts_match v s\<close> is
  \<open>to_tsvector(company_name) @@ to_tsquery('s')\<close> for the company name \<open>v\<close>, and
  \<open>ts_rank v s\<close> is \<open>ts_rank(to_tsvector(company_name), 's')\<close>, a greater rank
  being a better match.
\<close>

record 'r text_search =
  tsquery_ok :: "string \<Rightarrow> bool"
  ts_match :: "jvalue \<Rightarrow> string \<Rightarrow> bool"
  ts_rank :: "jvalue \<Rightarrow> string \<Rightarrow> 'r"

text \<open>
  The statements of the module: a constructor for each SQL template, its arguments the
  text that \<open>str.format\<close> puts into the template's holes.
\<close>

datatype statement =
    Select_page string
  | Select_search string string
  | Select_by_id string
  | Insert_returning string string
  | Update_returning string
  | Delete_returning

text \<open>Modelled from the spec: the columns of the \<open>leads\<close> table, which the schema
  (not in the module) declares.\<close>

definition leads_columns :: "string list" where
  "leads_columns = DEFAULT_LEAD_FIELDS"

text \<open>Modelled from the spec: how the database reads a comma-separated list of column
  names. An empty name is a syntax error, a name the table does not have an undefined
  column.\<close>

definition parse_columns :: "string \<Rightarrow> error + string list" where
  "parse_columns txt =
     (let cs = split CHR '','' txt in
      if [] \<in> set cs then Inl SyntaxError
      else if list_all (\<lambda>c. c \<in> set leads_columns) cs then Inr cs
      else Inl UndefinedColumn)"

text \<open>Modelled from the spec: a placeholder \<open>:name\<close>.\<close>

fun parse_placeholder :: "string \<Rightarrow> string option" where
  "parse_placeholder [] = None"
| "parse_placeholder (c # p) = (if c = CHR '':'' \<and> p \<noteq> [] then Some p else None)"

text \<open>Modelled from the spec: an assignment \<open>column=:name\<close> of a \<open>SET\<close> clause.\<close>

definition parse_assignment :: "string \<Rightarrow> (string \<times> string) option" where
  "parse_assignment txt =
     (case split CHR ''='' txt of
        [c, p] \<Rightarrow>
          (case parse_placeholder p of
             None \<Rightarrow> None
           | Some n \<Rightarrow> if c = [] then None else Some (c, n))
      | _ \<Rightarrow> None)"

text \<open>All of a list of optional values, or \<open>None\<close> when one is missing.\<close>

fun those_all :: "'a option list \<Rightarrow> 'a list option" where
  "those_all [] = Some []"
| "those_all (None # xs) = None"
| "those_all (Some x # xs) = (case those_all xs of None \<Rightarrow> None | Some ys \<Rightarrow> Some (x # ys))"

text \<open>Modelled from the spec: the values bound to the names, in order; \<open>None\<close> when a
  name has no value among the statement's parameters.\<close>

definition bind :: "jvalue dict \<Rightarrow> string list \<Rightarrow> jvalue list option" where
  "bind params names = those_all (map (dict_get params) names)"

text \<open>Modelled from the spec: the integer bound to \<open>:limit\<close> or \<open>:offset\<close>.\<close>

definition bound_int :: "jvalue dict \<Rightarrow> string \<Rightarrow> int option" where
  "bound_int params n = (case dict_get params n of Some (JInt i) \<Rightarrow> Some i | _ \<Rightarrow> None)"

text \<open>Modelled from the spec: the columns a statement sets, written into a row.\<close>

definition assign :: "(string \<times> jvalue) list \<Rightarrow> row \<Rightarrow> row" where
  "assign cvs r = fold (\<lambda>(c, v) r'. r'(c := v)) cvs r"

text \<open>Modelled from the spec: the row a \<open>SELECT\<close> of the columns \<open>cs\<close> returns for
  a stored row; \<open>RETURNING *\<close> returns every column of the table.\<close>

definition select_columns :: "string list \<Rightarrow> row \<Rightarrow> result_row" where
  "select_columns cs r = (\<lambda>c. if c \<in> set cs then Some (r c) else None)"

text \<open>Modelled from the spec: the sort key of \<open>ORDER BY id\<close>.\<close>

definition row_id :: "row \<Rightarrow> int" where
  "row_id r = (case r ''id'' of JInt i \<Rightarrow> i | _ \<Rightarrow> 0)"

text \<open>Modelled from the spec: \<open>WHERE id = :id\<close>; a comparison with \<open>NULL\<close> selects
  nothing.\<close>

definition id_is :: "jvalue \<Rightarrow> row \<Rightarrow> bool" where
  "id_is v r = (v \<noteq> JNull \<and> r ''id'' = v)"

text \<open>Modelled from the spec: \<open>LIMIT :limit OFFSET :offset\<close>, which refuses a negative
  number.\<close>

definition limit_offset :: "jvalue dict \<Rightarrow> 'a list \<Rightarrow> error + 'a list" where
  "limit_offset params rs =
     (case (bound_int params ''limit'', bound_int params ''offset'') of
        (Some l, Some off) \<Rightarrow>
          if l < 0 \<or> off < 0 then Inl ParameterError
          else Inr (take (nat l) (drop (nat off) rs))
      | _ \<Rightarrow> Inl ParameterError)"

text \<open>
  Modelled from the spec: what executing a statement with its bound parameters returns
  (the rows, and the database after it) or raises. The handlers of the module never set
  the column \<open>id\<close>; the key's uniqueness is checked where a row is inserted.
\<close>

fun execute ::
  "('r::linorder) text_search \<Rightarrow> database \<Rightarrow> statement \<Rightarrow> jvalue dict
     \<Rightarrow> error + (result_row list \<times> database)" where
  "execute fts db (Select_page columns) params =
     (case parse_columns columns of
        Inl e \<Rightarrow> Inl e
      | Inr cs \<Rightarrow>
          (case limit_offset params (sort_key row_id (leads db)) of
             Inl e \<Rightarrow> Inl e
           | Inr rs \<Rightarrow> Inr (map (select_columns cs) rs, db)))"
| "execute fts db (Select_search columns search) params =
     (if \<not> tsquery_ok fts search then Inl SyntaxError
      else
        (case parse_columns columns of
           Inl e \<Rightarrow> Inl e
         | Inr cs \<Rightarrow>
             (case limit_offset params
                     (sort_key (\<lambda>r. ts_rank fts (r ''company_name'') search)
                        (filter (\<lambda>r. ts_match fts (r ''company_name'') search) (leads db))) of
                Inl e \<Rightarrow> Inl e
              | Inr rs \<Rightarrow> Inr (map (select_columns cs) rs, db))))"
| "execute fts db (Select_by_id columns) params =
     (case parse_columns columns of
        Inl e \<Rightarrow> Inl e
      | Inr cs \<Rightarrow>
          (case dict_get params ''id'' of
             None \<Rightarrow> Inl ParameterError
           | Some v \<Rightarrow> Inr (map (select_columns cs) (filter (id_is v) (leads db)), db)))"
| "execute fts db (Insert_returning columns placeholders) params =
     (case parse_columns columns of
        Inl e \<Rightarrow> Inl e
      | Inr cs \<Rightarrow>
          (case those_all (map parse_placeholder (split CHR '','' placeholders)) of
             None \<Rightarrow> Inl SyntaxError
           | Some names \<Rightarrow>
               if length names \<noteq> length cs \<or> \<not> distinct cs then Inl SyntaxError
               else
                 (case bind params names of
                    None \<Rightarrow> Inl ParameterError
                  | Some vs \<Rightarrow>
                      let r = assign (zip cs vs) ((\<lambda>c. JNull)(''id'' := JInt (next_id db)))
                      in if list_ex (\<lambda>r'. r' ''id'' = r ''id'') (leads db)
                         then Inl UniqueViolation
                         else Inr ([select_columns leads_columns r],
                                   db\<lparr>leads := leads db @ [r], next_id := next_id db + 1\<rparr>))))"
| "execute fts db (Update_returning updates) params =
     (case those_all (map parse_assignment (split CHR '','' updates)) of
        None \<Rightarrow> Inl SyntaxError
      | Some asg \<Rightarrow>
          if \<not> distinct (map fst asg) then Inl SyntaxError
          else if \<not> list_all (\<lambda>c. c \<in> set leads_columns) (map fst asg) then Inl UndefinedColumn
          else
            (case (bind params (map snd asg), dict_get params ''id'') of
               (Some vs, Some v) \<Rightarrow>
                 let upd = assign (zip (map fst asg) vs)
                 in Inr (map (\<lambda>r. select_columns leads_columns (upd r))
                           (filter (id_is v) (leads db)),
                         db\<lparr>leads := map (\<lambda>r. if id_is v r then upd r else r) (leads db)\<rparr>)
             | _ \<Rightarrow> Inl ParameterError))"
| "execute fts db Delete_returning params =
     (case dict_get params ''id'' of
        None \<Rightarrow> Inl ParameterError
      | Some v \<Rightarrow>
          Inr (map (select_columns leads_columns) (filter (id_is v) (leads db)),
               db\<lparr>leads := filter (\<lambda>r. \<not> id_is v r) (leads db)\<rparr>))"

declare execute.simps [simp del]

text \<open>\<open>result.first()\<close>: the first row, or \<open>None\<close>.\<close>

definition first :: "'a list \<Rightarrow> 'a option" where
  "first rs = (case rs of [] \<Rightarrow> None | r # _ \<Rightarrow> Some r)"

subsection \<open>Rows as dictionaries\<close>

text \<open>\<open>getattr(row, field)\<close> raises \<open>AttributeError\<close> for a column the row does not
  have, and for every field when the row is \<open>None\<close>.\<close>

definition getattr :: "result_row \<Rightarrow> string \<Rightarrow> error + jvalue" where
  "getattr row field = (case row field of None \<Rightarrow> Inl AttributeError | Some v \<Rightarrow> Inr v)"

text \<open>\<open>{field: getattr(row, field) for field in fields}\<close>, the fields taken in order,
  \<open>d\<close> the dictionary built so far.\<close>

fun lead_dict_from :: "jvalue dict \<Rightarrow> result_row \<Rightarrow> string list \<Rightarrow> error + jvalue dict" where
  "lead_dict_from d row [] = Inr d"
| "lead_dict_from d row (field # rest) =
     (case getattr row field of
        Inl e \<Rightarrow> Inl e
      | Inr v \<Rightarrow> lead_dict_from (dict_set d field v) row rest)"

definition lead_dict :: "result_row \<Rightarrow> string list \<Rightarrow> error + jvalue dict" where
  "lead_dict row fs = lead_dict_from [] row fs"

text \<open>The same comprehension over \<open>DEFAULT_LEAD_FIELDS\<close> for the row of
  \<open>first()\<close>, which may be \<open>None\<close>.\<close>

definition full_lead :: "result_row option \<Rightarrow> error + jvalue dict" where
  "full_lead row =
     (case row of
        None \<Rightarrow> Inl AttributeError
      | Some r \<Rightarrow> lead_dict r DEFAULT_LEAD_FIELDS)"

subsection \<open>The handlers\<close>

text \<open>
  A handler answers with a JSON body and a status (200 where the source returns the body
  alone), or raises: \<open>Inl\<close> is the exception, which the handler does not catch. A
  handler that writes runs its statement in a transaction, committed when the block ends
  and rolled back when the statement raises, so it returns the database as well.

  The two views, \<open>leads_collection_view\<close> and \<open>lead_view\<close>, only choose the
  handler by the method of the request, behind the authentication guard, which is not part
  of the module. The body of a \<open>POST\<close> or \<open>PUT\<close> is what \<open>request.get_json()\<close>
  gives for a JSON object: a dictionary of field values.
\<close>

type_synonym response = "json \<times> nat"

text \<open>The body of the loop of \<open>_get_all_leads\<close>: the dictionary of one row.\<close>

definition lead_of_row :: "string list \<Rightarrow> bool \<Rightarrow> result_row \<Rightarrow> error + jvalue dict" where
  "lead_of_row incl drop_null row =
     (case lead_dict row incl of
        Inl e \<Rightarrow> Inl e
      | Inr lead \<Rightarrow> Inr (if drop_null then filter (\<lambda>(k, v). v \<noteq> JNull) lead else lead))"

text \<open>The loop over the rows of the result: \<open>response_body\<close> and \<open>count\<close> are its
  two variables.\<close>

fun rows_loop ::
  "string list \<Rightarrow> bool \<Rightarrow> result_row list \<Rightarrow> jvalue dict list \<Rightarrow> int
     \<Rightarrow> error + (jvalue dict list \<times> int)" where
  "rows_loop incl drop_null [] response_body count = Inr (response_body, count)"
| "rows_loop incl drop_null (row # res) response_body count =
     (case lead_of_row incl drop_null row of
        Inl e \<Rightarrow> Inl e
      | Inr lead \<Rightarrow> rows_loop incl drop_null res (response_body @ [lead]) (count + 1))"

text \<open>The \<open>include\<close> list of \<open>_get_all_leads\<close>.\<close>

definition include_fields :: "string option \<Rightarrow> string list" where
  "include_fields incl =
     (case incl of
        None \<Rightarrow> DEFAULT_LEAD_FIELDS
      | Some txt \<Rightarrow>
          map (\<lambda>field. strip (lower field))
            (filter (\<lambda>field. lower field \<in> set DEFAULT_LEAD_FIELDS) (split CHR '','' txt)))"

text \<open>The \<open>drop_null\<close> flag of \<open>_get_all_leads\<close>.\<close>

definition drop_null_flag :: "string option \<Rightarrow> bool" where
  "drop_null_flag arg = (lower (case arg of None \<Rightarrow> ''false'' | Some txt \<Rightarrow> txt) = ''true'')"

text \<open>
  \<open>_get_all_leads\<close>. The pagination parser is not part of the module: it is the
  parameter \<open>parse_pagination_params\<close>, which reads the query arguments and gives the page
  and the page size, or the message of the \<open>ValueError\<close> it raises.
\<close>

definition get_all_leads ::
  "((string \<rightharpoonup> string) \<Rightarrow> string + int \<times> int) \<Rightarrow> ('r::linorder) text_search \<Rightarrow> database
     \<Rightarrow> (string \<rightharpoonup> string) \<Rightarrow> error + response" where
  "get_all_leads parse_pagination_params fts db args =
     (case parse_pagination_params args of
        Inl e \<Rightarrow>
          Inr (JObject [(''message'', JVal (JStr ''invalid query parameters'')),
                        (''detail'', JObject [(''error'', JVal (JStr e))])], 400)
      | Inr (page, perpage) \<Rightarrow>
          let search = args ''search'';
              drop_null = drop_null_flag (args ''drop_null'');
              incl = include_fields (args ''include'');
              limit = perpage;
              offset = (page - 1) * limit;
              query =
                (case search of
                   None \<Rightarrow> Select_page (join '','' DEFAULT_LEAD_FIELDS)
                 | Some txt \<Rightarrow> Select_search (join '','' DEFAULT_LEAD_FIELDS) txt);
              query_args = [(''limit'', JInt limit), (''offset'', JInt offset)]
          in case execute fts db query query_args of
               Inl e \<Rightarrow> Inl e
             | Inr (res, _) \<Rightarrow>
                 (case rows_loop incl drop_null res [] 0 of
                    Inl e \<Rightarrow> Inl e
                  | Inr (response_body, count) \<Rightarrow>
                      Inr (JObject [(''count'', JVal (JInt count)),
                                    (''query'', JObject [(''page'', JVal (JInt page)),
                                                         (''perpage'', JVal (JInt perpage))]),
                                    (''leads'', JArray (map json_of_dict response_body))],
                           200)))"

text \<open>The body of \<open>_create_new_lead\<close> after its filter.\<close>

definition create_body :: "jvalue dict \<Rightarrow> jvalue dict" where
  "create_body js =
     dict_of_items
       (filter (\<lambda>(field, v). field \<noteq> ''id'' \<and> field \<in> set DEFAULT_LEAD_FIELDS \<and> v \<noteq> JNull) js)"

text \<open>The message of the 422 answer.\<close>

definition invalid_data_source :: "string \<Rightarrow> string" where
  "invalid_data_source data_source =
     ''Invalid value for the '' @ [CHR 0x22] @ ''data_source'' @ [CHR 0x22] @ '' parameter: ''
       @ repr data_source"

text \<open>The validation of \<open>_create_new_lead\<close>: the answer it returns early with, if any.\<close>

definition validate_data_source :: "string list \<Rightarrow> jvalue dict \<Rightarrow> response option" where
  "validate_data_source valid_data_sources body =
     (case dict_get body ''data_source'' of
        None \<Rightarrow> None
      | Some data_source \<Rightarrow>
          if truthy data_source then
            (let data_source' = lower (py_str data_source)
             in if data_source' \<notin> set valid_data_sources
                then Some (JObject [(''message'', JVal (JStr (invalid_data_source data_source')))],
                           422)
                else None)
          else None)"

text \<open>\<open>_create_new_lead\<close>\<close>

definition create_new_lead ::
  "string list \<Rightarrow> ('r::linorder) text_search \<Rightarrow> database \<Rightarrow> jvalue dict
     \<Rightarrow> (error + response) \<times> database" where
  "create_new_lead valid_data_sources fts db js =
     (let body = create_body js in
      case validate_data_source valid_data_sources body of
        Some r \<Rightarrow> (Inr r, db)
      | None \<Rightarrow>
          (case execute fts db
                  (Insert_returning (join '','' (keys body))
                     (join '','' (map (\<lambda>column. '':'' @ column) (keys body))))
                  body of
             Inl e \<Rightarrow> (Inl e, db)
           | Inr (res, db') \<Rightarrow>
               (case full_lead (first res) of
                  Inl e \<Rightarrow> (Inl e, db')
                | Inr lead \<Rightarrow> (Inr (json_of_dict lead, 200), db'))))"

text \<open>The 404 answer of the three handlers of one lead.\<close>

definition not_found :: "int \<Rightarrow> (string \<times> json) list \<Rightarrow> response" where
  "not_found ident extra =
     (JObject ([(''params'', JObject [(''id'', JVal (JInt ident))])] @ extra @
               [(''message'', JVal (JStr ''Could not find lead with given id.''))]),
      404)"

text \<open>\<open>_get_lead_by_id\<close>\<close>

definition get_lead_by_id ::
  "('r::linorder) text_search \<Rightarrow> database \<Rightarrow> int \<Rightarrow> error + response" where
  "get_lead_by_id fts db ident =
     (case execute fts db (Select_by_id (join '','' DEFAULT_LEAD_FIELDS)) [(''id'', JInt ident)] of
        Inl e \<Rightarrow> Inl e
      | Inr (res, _) \<Rightarrow>
          (case first res of
             None \<Rightarrow> Inr (not_found ident [])
           | Some row \<Rightarrow>
               (case full_lead (Some row) of
                  Inl e \<Rightarrow> Inl e
                | Inr lead \<Rightarrow> Inr (json_of_dict lead, 200))))"

text \<open>The body of \<open>_modify_lead_with_id\<close> after its filter.\<close>

definition modify_body :: "jvalue dict \<Rightarrow> jvalue dict" where
  "modify_body js =
     dict_of_items
       (filter (\<lambda>(field, v). field \<noteq> ''id'' \<and> field \<in> set DEFAULT_LEAD_FIELDS) js)"

text \<open>The text \<open>_modify_lead_with_id\<close> formats into the \<open>SET\<close> clause.\<close>

definition updates_text :: "jvalue dict \<Rightarrow> string" where
  "updates_text body = join '','' (map (\<lambda>field. field @ ''=:'' @ field) (keys body))"

text \<open>\<open>_modify_lead_with_id\<close>\<close>

definition modify_lead_with_id ::
  "('r::linorder) text_search \<Rightarrow> database \<Rightarrow> int \<Rightarrow> jvalue dict
     \<Rightarrow> (error + response) \<times> database" where
  "modify_lead_with_id fts db ident js =
     (let body = modify_body js in
      case execute fts db (Update_returning (updates_text body)) ((''id'', JInt ident) # body) of
        Inl e \<Rightarrow> (Inl e, db)
      | Inr (res, db') \<Rightarrow>
          (case first res of
             None \<Rightarrow> (Inr (not_found ident [(''body'', json_of_dict js)]), db')
           | Some row \<Rightarrow>
               (case full_lead (Some row) of
                  Inl e \<Rightarrow> (Inl e, db')
                | Inr lead \<Rightarrow> (Inr (json_of_dict lead, 200), db'))))"

text \<open>\<open>_delete_lead_with_id\<close>\<close>

definition delete_lead_with_id ::
  "('r::linorder) text_search \<Rightarrow> database \<Rightarrow> int \<Rightarrow> (error + response) \<times> database" where
  "delete_lead_with_id fts db ident =
     (case execute fts db Delete_returning [(''id'', JInt ident)] of
        Inl e \<Rightarrow> (Inl e, db)
      | Inr (res, db') \<Rightarrow>
          (case first res of
             None \<Rightarrow> (Inr (not_found ident []), db')
           | Some row \<Rightarrow>
               (case full_lead (Some row) of
                  Inl e \<Rightarrow> (Inl e, db')
                | Inr lead \<Rightarrow> (Inr (json_of_dict lead, 200), db'))))"

section \<open>Properties\<close>

subsection \<open>Splitting and joining text\<close>

lemma split_not_Nil: "split c s \<noteq> []"
  by (induction s) (auto split: list.splits)

lemma split_no_sep: "c \<notin> set x \<Longrightarrow> split c x = [x]"
  by (induction x) auto

lemma split_append_sep: "c \<notin> set x \<Longrightarrow> split c (x @ c # s) = x # split c s"
  by (induction x) auto

text \<open>Splitting undoes joining when no part holds the separator; the join of no part
  at all is the empty text, which splits into one empty part.\<close>

lemma split_join:
  "xs \<noteq> [] \<Longrightarrow> list_all (\<lambda>x. c \<notin> set x) xs \<Longrightarrow> split c (join [c] xs) = xs"
  by (induction xs rule: induct_list012) (auto simp: split_no_sep split_append_sep)

lemma default_no_comma: "list_all (\<lambda>x. CHR '','' \<notin> set x) DEFAULT_LEAD_FIELDS"
  by (simp add: DEFAULT_LEAD_FIELDS_def)

lemma default_no_empty: "[] \<notin> set DEFAULT_LEAD_FIELDS"
  by (simp add: DEFAULT_LEAD_FIELDS_def)

lemma distinct_default: "distinct DEFAULT_LEAD_FIELDS"
  by (simp add: DEFAULT_LEAD_FIELDS_def)

lemma parse_columns_default:
  "parse_columns (join '','' DEFAULT_LEAD_FIELDS) = Inr DEFAULT_LEAD_FIELDS"
proof -
  have "split CHR '','' (join '','' DEFAULT_LEAD_FIELDS) = DEFAULT_LEAD_FIELDS"
    by (rule split_join) (simp_all add: default_no_comma, simp add: DEFAULT_LEAD_FIELDS_def)
  then show ?thesis
    by (simp add: parse_columns_def default_no_empty leads_columns_def list_all_iff)
qed

lemma strip_default: "s \<in> set DEFAULT_LEAD_FIELDS \<Longrightarrow> strip s = s"
  by (auto simp: DEFAULT_LEAD_FIELDS_def strip_def is_space_def)

subsection \<open>Dictionaries and rows\<close>

lemma dict_set_fresh: "k \<notin> set (keys d) \<Longrightarrow> dict_set d k v = d @ [(k, v)]"
  by (induction d) (auto simp: keys_def)


lemma keys_dict_set_list:
  "keys (dict_set d k v) = (if k \<in> set (keys d) then keys d else keys d @ [k])"
  by (induction d) (force simp: keys_def)+

lemma keys_dict_set: "set (keys (dict_set d k v)) = insert k (set (keys d))"
  by (auto simp: keys_dict_set_list)

lemma distinct_dict_set: "distinct (keys d) \<Longrightarrow> distinct (keys (dict_set d k v))"
  by (simp add: keys_dict_set_list)

lemma dict_get_dict_set: "dict_get (dict_set d k v) k' = (if k' = k then Some v else dict_get d k')"
  by (induction d) (auto simp: dict_get_def)

lemma dict_of_items_distinct:
  "distinct (map fst xs) \<Longrightarrow> dict_of_items xs = xs"
proof -
  have "distinct (map fst (d @ xs)) \<Longrightarrow> foldl (\<lambda>d (k, v). dict_set d k v) d xs = d @ xs" for d :: "(string \<times> 'a) list"
  proof (induction xs arbitrary: d)
    case Nil
    then show ?case by simp
  next
    case (Cons x xs)
    obtain k v where x: "x = (k, v)" by (cases x)
    from Cons.prems have "k \<notin> set (keys d)" by (auto simp: x keys_def)
    then have "dict_set d k v = d @ [(k, v)]" by (rule dict_set_fresh)
    moreover from Cons.prems have "distinct (map fst ((d @ [(k, v)]) @ xs))" by (simp add: x)
    ultimately show ?case using Cons.IH[of "d @ [(k, v)]"] by (simp add: x)
  qed
  from this[of "[]"] show "distinct (map fst xs) \<Longrightarrow> dict_of_items xs = xs"
    by (simp add: dict_of_items_def)
qed

lemma lead_dict_from_select:
  "set fs \<subseteq> set cs \<Longrightarrow>
   lead_dict_from d (select_columns cs r) fs = Inr (foldl (\<lambda>d f. dict_set d f (r f)) d fs)"
  by (induction fs arbitrary: d) (auto simp: getattr_def select_columns_def)

lemma foldl_dict_set_map:
  "foldl (\<lambda>d f. dict_set d f (r f)) d fs = foldl (\<lambda>d (k, v). dict_set d k v) d (map (\<lambda>f. (f, r f)) fs)"
  by (induction fs arbitrary: d) auto

lemma lead_dict_select:
  "set fs \<subseteq> set cs \<Longrightarrow>
   lead_dict (select_columns cs r) fs = Inr (dict_of_items (map (\<lambda>f. (f, r f)) fs))"
  by (simp add: lead_dict_def lead_dict_from_select foldl_dict_set_map dict_of_items_def)

lemma full_lead_select:
  "full_lead (Some (select_columns leads_columns r)) = Inr (map (\<lambda>f. (f, r f)) DEFAULT_LEAD_FIELDS)"
proof -
  have "distinct (map fst (map (\<lambda>f. (f, r f)) DEFAULT_LEAD_FIELDS))"
    by (simp add: comp_def distinct_default)
  then show ?thesis
    by (simp add: full_lead_def leads_columns_def lead_dict_select dict_of_items_distinct)
qed

subsection \<open>The list handler\<close>

lemma keys_Nil: "keys [] = []"
  by (simp add: keys_def)

lemma dict_get_Nil: "dict_get [] k = None"
  by (simp add: dict_get_def)

lemma keys_foldl_dict_set:
  "set (keys (foldl (\<lambda>d (k, v). dict_set d k v) d xs)) = set (keys d) \<union> fst ` set xs"
  by (induction xs arbitrary: d) (auto simp: keys_dict_set)

lemma keys_dict_of_items: "set (keys (dict_of_items xs)) = fst ` set xs"
  by (simp add: dict_of_items_def keys_foldl_dict_set keys_Nil)

lemma distinct_foldl_dict_set:
  "distinct (keys d) \<Longrightarrow> distinct (keys (foldl (\<lambda>d (k, v). dict_set d k v) d xs))"
  by (induction xs arbitrary: d) (auto simp: distinct_dict_set)

lemma distinct_dict_of_items: "distinct (keys (dict_of_items xs))"
  by (simp add: dict_of_items_def distinct_foldl_dict_set keys_Nil)

lemma dict_get_foldl_fields:
  "dict_get (foldl (\<lambda>d (k, v). dict_set d k v) d (map (\<lambda>f. (f, r f)) fs)) k =
     (if k \<in> set fs then Some (r k) else dict_get d k)"
  by (induction fs arbitrary: d) (auto simp: dict_get_dict_set)

lemma dict_get_fields:
  "dict_get (dict_of_items (map (\<lambda>f. (f, r f)) fs)) k = (if k \<in> set fs then Some (r k) else None)"
  by (simp add: dict_of_items_def dict_get_foldl_fields dict_get_Nil)

lemma lead_of_row_select:
  "set incl \<subseteq> set cs \<Longrightarrow>
   lead_of_row incl dn (select_columns cs r) =
     Inr (if dn then filter (\<lambda>(k, v). v \<noteq> JNull) (dict_of_items (map (\<lambda>f. (f, r f)) incl))
          else dict_of_items (map (\<lambda>f. (f, r f)) incl))"
  by (simp add: lead_of_row_def lead_dict_select)

lemma rows_loop_Inr:
  "map (lead_of_row incl dn) res = map Inr ls \<Longrightarrow>
   rows_loop incl dn res body n = Inr (body @ ls, n + int (length res))"
proof (induction res arbitrary: body n ls)
  case Nil
  then show ?case by simp
next
  case (Cons row res)
  then obtain l ls' where ls: "ls = l # ls'" and l: "lead_of_row incl dn row = Inr l"
    and rest: "map (lead_of_row incl dn) res = map Inr ls'"
    by (cases ls) auto
  from Cons.IH[OF rest, of "body @ [l]" "n + 1"] show ?case
    by (simp add: l ls)
qed

lemma lead_of_row_map_select:
  "set incl \<subseteq> set cs \<Longrightarrow>
   \<exists>ls. map (lead_of_row incl dn) (map (select_columns cs) rs) = map Inr ls"
proof (induction rs)
  case Nil
  then show ?case by simp
next
  case (Cons r rs)
  then obtain ls where "map (lead_of_row incl dn) (map (select_columns cs) rs) = map Inr ls"
    by blast
  moreover obtain l where "lead_of_row incl dn (select_columns cs r) = Inr l"
    using Cons.prems by (simp add: lead_of_row_select)
  ultimately have "map (lead_of_row incl dn) (map (select_columns cs) (r # rs)) = map Inr (l # ls)"
    by simp
  then show ?case by blast
qed

lemma include_fields_subset: "set (include_fields a) \<subseteq> set DEFAULT_LEAD_FIELDS"
  by (cases a) (auto simp: include_fields_def strip_default)

lemma include_fields_Some:
  "include_fields (Some txt) = filter (\<lambda>f. f \<in> set DEFAULT_LEAD_FIELDS) (map lower (split CHR '','' txt))"
proof -
  have "map (\<lambda>field. strip (lower field)) (filter (\<lambda>field. lower field \<in> set DEFAULT_LEAD_FIELDS) xs)
        = filter (\<lambda>f. f \<in> set DEFAULT_LEAD_FIELDS) (map lower xs)" for xs
    by (induction xs) (auto simp: strip_default)
  then show ?thesis by (simp add: include_fields_def)
qed

lemma execute_select_page:
  "0 \<le> l \<Longrightarrow> 0 \<le> off \<Longrightarrow>
   execute fts db (Select_page (join '','' DEFAULT_LEAD_FIELDS))
     [(''limit'', JInt l), (''offset'', JInt off)] =
   Inr (map (select_columns DEFAULT_LEAD_FIELDS)
          (take (nat l) (drop (nat off) (sort_key row_id (leads db)))), db)"
  by (simp add: execute.simps parse_columns_default limit_offset_def bound_int_def dict_get_def)

lemma execute_select_search:
  "0 \<le> l \<Longrightarrow> 0 \<le> off \<Longrightarrow> tsquery_ok fts s \<Longrightarrow>
   execute fts db (Select_search (join '','' DEFAULT_LEAD_FIELDS) s)
     [(''limit'', JInt l), (''offset'', JInt off)] =
   Inr (map (select_columns DEFAULT_LEAD_FIELDS)
          (take (nat l) (drop (nat off)
             (sort_key (\<lambda>r. ts_rank fts (r ''company_name'') s)
                (filter (\<lambda>r. ts_match fts (r ''company_name'') s) (leads db))))), db)"
  by (simp add: execute.simps parse_columns_default limit_offset_def bound_int_def dict_get_def)

text \<open>The answer of \<open>_get_all_leads\<close> once its statement has returned the rows
  \<open>rs\<close>.\<close>

lemma get_all_leads_answer:
  assumes pp: "pp args = Inr (page, perpage)"
    and ex: "execute fts db
               (case args ''search'' of
                  None \<Rightarrow> Select_page (join '','' DEFAULT_LEAD_FIELDS)
                | Some txt \<Rightarrow> Select_search (join '','' DEFAULT_LEAD_FIELDS) txt)
               [(''limit'', JInt perpage), (''offset'', JInt ((page - 1) * perpage))] =
             Inr (map (select_columns DEFAULT_LEAD_FIELDS) rs, db')"
  shows "\<exists>ls. get_all_leads pp fts db args =
           Inr (JObject [(''count'', JVal (JInt (int (length ls)))),
                         (''query'', JObject [(''page'', JVal (JInt page)),
                                              (''perpage'', JVal (JInt perpage))]),
                         (''leads'', JArray (map json_of_dict ls))], 200) \<and>
         map (lead_of_row (include_fields (args ''include'')) (drop_null_flag (args ''drop_null'')))
           (map (select_columns DEFAULT_LEAD_FIELDS) rs) = map Inr ls"
proof -
  obtain ls where ls: "map (lead_of_row (include_fields (args ''include'')) (drop_null_flag (args ''drop_null'')))
           (map (select_columns DEFAULT_LEAD_FIELDS) rs) = map Inr ls"
    using lead_of_row_map_select[OF include_fields_subset] by blast
  then have len: "length ls = length rs" by (metis length_map)
  have "rows_loop (include_fields (args ''include'')) (drop_null_flag (args ''drop_null''))
          (map (select_columns DEFAULT_LEAD_FIELDS) rs) [] 0 = Inr (ls, int (length ls))"
    using rows_loop_Inr[OF ls, of "[]" 0] len by simp
  then have "get_all_leads pp fts db args =
           Inr (JObject [(''count'', JVal (JInt (int (length ls)))),
                         (''query'', JObject [(''page'', JVal (JInt page)),
                                              (''perpage'', JVal (JInt perpage))]),
                         (''leads'', JArray (map json_of_dict ls))], 200)"
    using ex by (simp add: get_all_leads_def pp Let_def)
  with ls show ?thesis by blast
qed

subsection \<open>Pages of leads\<close>

text \<open>
  C5. A \<open>GET /leads\<close> request with no \<open>search\<close> argument and a valid page
  (\<open>page \<ge> 1\<close>, \<open>perpage \<ge> 1\<close>) is answered with status 200. The rows are those of
  the table in ascending order of \<open>id\<close>, the first \<open>(page - 1) * perpage\<close> of them
  skipped and at most \<open>perpage\<close> taken; each row gives one lead of the answer, and
  \<open>count\<close> is the number of leads of this page.
\<close>

theorem get_all_leads_page:
  assumes "parse_pagination_params args = Inr (page, perpage)"
    and "1 \<le> page" and "1 \<le> perpage"
    and "args ''search'' = None"
  shows "\<exists>ls. get_all_leads parse_pagination_params fts db args =
           Inr (JObject [(''count'', JVal (JInt (int (length ls)))),
                         (''query'', JObject [(''page'', JVal (JInt page)),
                                              (''perpage'', JVal (JInt perpage))]),
                         (''leads'', JArray (map json_of_dict ls))], 200) \<and>
         map (lead_of_row (include_fields (args ''include'')) (drop_null_flag (args ''drop_null'')))
           (map (select_columns DEFAULT_LEAD_FIELDS)
              (take (nat perpage) (drop (nat ((page - 1) * perpage))
                 (sort_key row_id (leads db))))) = map Inr ls \<and>
         sorted (map row_id (sort_key row_id (leads db))) \<and>
         length ls \<le> nat perpage"
proof -
  let ?rs = "take (nat perpage) (drop (nat ((page - 1) * perpage)) (sort_key row_id (leads db)))"
  have "execute fts db (Select_page (join '','' DEFAULT_LEAD_FIELDS))
          [(''limit'', JInt perpage), (''offset'', JInt ((page - 1) * perpage))] =
        Inr (map (select_columns DEFAULT_LEAD_FIELDS) ?rs, db)"
    using assms(2,3) by (intro execute_select_page) simp_all
  with assms(4) obtain ls where
    ans: "get_all_leads parse_pagination_params fts db args =
           Inr (JObject [(''count'', JVal (JInt (int (length ls)))),
                         (''query'', JObject [(''page'', JVal (JInt page)),
                                              (''perpage'', JVal (JInt perpage))]),
                         (''leads'', JArray (map json_of_dict ls))], 200)"
    and ls: "map (lead_of_row (include_fields (args ''include'')) (drop_null_flag (args ''drop_null'')))
           (map (select_columns DEFAULT_LEAD_FIELDS) ?rs) = map Inr ls"
    using get_all_leads_answer[of parse_pagination_params args page perpage fts db ?rs db] assms(1)
    by auto
  from ls have "length ls = length ?rs" by (metis length_map)
  then have "length ls \<le> nat perpage" by simp
  with ans ls show ?thesis by (auto simp: sorted_sort_key)
qed

text \<open>An instance: page 2 of pages of one lead, of a table whose rows are stored in the order
  3, 1, 2. The answer is the lead of \<open>id\<close> 2.\<close>

theorem get_all_leads_page_witness:
  "get_all_leads (\<lambda>a. Inr (2, 1))
     \<lparr>tsquery_ok = (\<lambda>s. True), ts_match = (\<lambda>v s. True), ts_rank = (\<lambda>v s. 0::nat)\<rparr>
     \<lparr>leads = [(\<lambda>c. JNull)(''id'' := JInt 3), (\<lambda>c. JNull)(''id'' := JInt 1),
               (\<lambda>c. JNull)(''id'' := JInt 2)], next_id = 4\<rparr>
     [''include'' \<mapsto> ''id''] =
   Inr (JObject [(''count'', JVal (JInt 1)),
                 (''query'', JObject [(''page'', JVal (JInt 2)), (''perpage'', JVal (JInt 1))]),
                 (''leads'', JArray [JObject [(''id'', JVal (JInt 2))]])], 200)"
proof -
  have inc: "include_fields (Some ''id'') = [''id'']"
    by (simp add: include_fields_def lower_def char_lower_def strip_def is_space_def
        DEFAULT_LEAD_FIELDS_def)
  have sub: "set [''id''] \<subseteq> set DEFAULT_LEAD_FIELDS"
    by (simp add: DEFAULT_LEAD_FIELDS_def)
  show ?thesis
    using get_all_leads_page[of "\<lambda>a. Inr (2, 1)" "[''include'' \<mapsto> ''id'']" 2 1
        "\<lparr>tsquery_ok = (\<lambda>s. True), ts_match = (\<lambda>v s. True), ts_rank = (\<lambda>v s. 0::nat)\<rparr>"
        "\<lparr>leads = [(\<lambda>c. JNull)(''id'' := JInt 3), (\<lambda>c. JNull)(''id'' := JInt 1),
               (\<lambda>c. JNull)(''id'' := JInt 2)], next_id = 4\<rparr>"]
    by (auto simp: inc lead_of_row_select[OF sub] row_id_def drop_null_flag_def lower_def
        char_lower_def dict_of_items_def json_of_dict_def Cons_eq_map_conv)
qed

subsection \<open>Search\<close>

text \<open>
  C1 (what the code does). With a \<open>search\<close> argument the statement orders the matching
  rows by \<open>ts_rank\<close> with no \<open>DESC\<close>, that is in ascending order: the leads of the
  answer are those of the matching rows sorted by rank, the least rank first, so of two
  returned leads of different rank the better match comes later.
\<close>

theorem get_all_leads_search_ascending:
  assumes "parse_pagination_params args = Inr (page, perpage)"
    and "1 \<le> page" and "1 \<le> perpage"
    and "args ''search'' = Some txt" and "tsquery_ok fts txt"
  shows "\<exists>ls. get_all_leads parse_pagination_params fts db args =
           Inr (JObject [(''count'', JVal (JInt (int (length ls)))),
                         (''query'', JObject [(''page'', JVal (JInt page)),
                                              (''perpage'', JVal (JInt perpage))]),
                         (''leads'', JArray (map json_of_dict ls))], 200) \<and>
         map (lead_of_row (include_fields (args ''include'')) (drop_null_flag (args ''drop_null'')))
           (map (select_columns DEFAULT_LEAD_FIELDS)
              (take (nat perpage) (drop (nat ((page - 1) * perpage))
                 (sort_key (\<lambda>r. ts_rank fts (r ''company_name'') txt)
                    (filter (\<lambda>r. ts_match fts (r ''company_name'') txt) (leads db)))))) =
           map Inr ls \<and>
         sorted (map (\<lambda>r. ts_rank fts (r ''company_name'') txt)
           (take (nat perpage) (drop (nat ((page - 1) * perpage))
              (sort_key (\<lambda>r. ts_rank fts (r ''company_name'') txt)
                 (filter (\<lambda>r. ts_match fts (r ''company_name'') txt) (leads db))))))"
proof -
  let ?all = "sort_key (\<lambda>r. ts_rank fts (r ''company_name'') txt)
                 (filter (\<lambda>r. ts_match fts (r ''company_name'') txt) (leads db))"
  let ?rs = "take (nat perpage) (drop (nat ((page - 1) * perpage)) ?all)"
  have "execute fts db (Select_search (join '','' DEFAULT_LEAD_FIELDS) txt)
          [(''limit'', JInt perpage), (''offset'', JInt ((page - 1) * perpage))] =
        Inr (map (select_columns DEFAULT_LEAD_FIELDS) ?rs, db)"
    using assms(2,3,5) by (intro execute_select_search) simp_all
  with assms(4) obtain ls where
    ans: "get_all_leads parse_pagination_params fts db args =
           Inr (JObject [(''count'', JVal (JInt (int (length ls)))),
                         (''query'', JObject [(''page'', JVal (JInt page)),
                                              (''perpage'', JVal (JInt perpage))]),
                         (''leads'', JArray (map json_of_dict ls))], 200)"
    and ls: "map (lead_of_row (include_fields (args ''include'')) (drop_null_flag (args ''drop_null'')))
           (map (select_columns DEFAULT_LEAD_FIELDS) ?rs) = map Inr ls"
    using get_all_leads_answer[of parse_pagination_params args page perpage fts db ?rs db] assms(1)
    by auto
  have "sorted (map (\<lambda>r. ts_rank fts (r ''company_name'') txt) ?all)"
    by (rule sorted_sort_key)
  then have "sorted (map (\<lambda>r. ts_rank fts (r ''company_name'') txt) ?rs)"
    by (simp add: take_map[symmetric] drop_map[symmetric] sorted_wrt_take sorted_wrt_drop)
  with ans ls show ?thesis by blast
qed

text \<open>
  The failing input: two leads that both match \<open>acme\<close>, the first of rank 2, the second
  of rank 1. The answer lists the lead of rank 1 before the lead of rank 2.
\<close>

theorem get_all_leads_search_ascending_witness:
  "get_all_leads (\<lambda>a. Inr (1, 10))
     \<lparr>tsquery_ok = (\<lambda>s. True), ts_match = (\<lambda>v s. True),
      ts_rank = (\<lambda>v s. if v = JStr ''Acme Acme'' then 2 else (1::nat))\<rparr>
     \<lparr>leads = [(\<lambda>c. JNull)(''id'' := JInt 1, ''company_name'' := JStr ''Acme Acme''),
               (\<lambda>c. JNull)(''id'' := JInt 2, ''company_name'' := JStr ''Acme Foods'')],
      next_id = 3\<rparr>
     [''include'' \<mapsto> ''company_name'', ''search'' \<mapsto> ''acme''] =
   Inr (JObject [(''count'', JVal (JInt 2)),
                 (''query'', JObject [(''page'', JVal (JInt 1)), (''perpage'', JVal (JInt 10))]),
                 (''leads'', JArray [JObject [(''company_name'', JVal (JStr ''Acme Foods''))],
                                     JObject [(''company_name'', JVal (JStr ''Acme Acme''))]])],
        200)"
proof -
  have inc: "include_fields (Some ''company_name'') = [''company_name'']"
    by (simp add: include_fields_def lower_def char_lower_def strip_def is_space_def
        DEFAULT_LEAD_FIELDS_def)
  have sub: "set [''company_name''] \<subseteq> set DEFAULT_LEAD_FIELDS"
    by (simp add: DEFAULT_LEAD_FIELDS_def)
  show ?thesis
    using get_all_leads_search_ascending[of "\<lambda>a. Inr (1, 10)"
        "[''include'' \<mapsto> ''company_name'', ''search'' \<mapsto> ''acme'']" 1 10 "''acme''"
        "\<lparr>tsquery_ok = (\<lambda>s. True), ts_match = (\<lambda>v s. True),
          ts_rank = (\<lambda>v s. if v = JStr ''Acme Acme'' then 2 else (1::nat))\<rparr>"
        "\<lparr>leads = [(\<lambda>c. JNull)(''id'' := JInt 1, ''company_name'' := JStr ''Acme Acme''),
               (\<lambda>c. JNull)(''id'' := JInt 2, ''company_name'' := JStr ''Acme Foods'')],
          next_id = 3\<rparr>"]
    by (auto simp: inc lead_of_row_select[OF sub] drop_null_flag_def lower_def
        char_lower_def dict_of_items_def json_of_dict_def Cons_eq_map_conv)
qed

subsection \<open>The objects of an answer\<close>

lemma set_dict_of_fields:
  "set (dict_of_items (map (\<lambda>f. (f, r f)) fs)) = (\<lambda>f. (f, r f)) ` set fs"
proof -
  let ?d = "dict_of_items (map (\<lambda>f. (f, r f)) fs)"
  have d: "distinct (map fst ?d)"
    using distinct_dict_of_items[of "map (\<lambda>f. (f, r f)) fs"] by (simp add: keys_def)
  have "(k, v) \<in> set ?d \<longleftrightarrow> k \<in> set fs \<and> v = r k" for k v
  proof -
    have "(k, v) \<in> set ?d \<longleftrightarrow> map_of ?d k = Some v"
      using map_of_eq_Some_iff[OF d, of k v] by simp
    also have "\<dots> \<longleftrightarrow> (if k \<in> set fs then Some (r k) else None) = Some v"
      using dict_get_fields[of r fs k] by (simp add: dict_get_def)
    also have "\<dots> \<longleftrightarrow> k \<in> set fs \<and> v = r k"
      by (cases "k \<in> set fs") auto
    finally show ?thesis .
  qed
  then show ?thesis by (intro set_eqI) (auto simp: image_iff)
qed

lemma limit_offset_subset: "limit_offset params xs = Inr ys \<Longrightarrow> set ys \<subseteq> set xs"
  by (auto simp: limit_offset_def split: option.splits if_splits
      dest!: in_set_takeD in_set_dropD)

lemma execute_select_rows:
  assumes "execute fts db q params = Inr (res, db')"
    and "q = Select_page (join '','' DEFAULT_LEAD_FIELDS) \<or>
         q = Select_search (join '','' DEFAULT_LEAD_FIELDS) txt"
  shows "\<exists>rs. set rs \<subseteq> set (leads db) \<and> res = map (select_columns DEFAULT_LEAD_FIELDS) rs"
proof -
  from assms(2) show ?thesis
  proof
    assume q: "q = Select_page (join '','' DEFAULT_LEAD_FIELDS)"
    from assms(1) obtain rs where
      lo: "limit_offset params (sort_key row_id (leads db)) = Inr rs"
      and res: "res = map (select_columns DEFAULT_LEAD_FIELDS) rs"
      unfolding q execute.simps parse_columns_default
      by (cases "limit_offset params (sort_key row_id (leads db))") simp_all
    from limit_offset_subset[OF lo] have "set rs \<subseteq> set (leads db)" by simp
    with res show ?thesis by blast
  next
    assume q: "q = Select_search (join '','' DEFAULT_LEAD_FIELDS) txt"
    let ?xs = "sort_key (\<lambda>r. ts_rank fts (r ''company_name'') txt)
                 (filter (\<lambda>r. ts_match fts (r ''company_name'') txt) (leads db))"
    from assms(1) have ok: "tsquery_ok fts txt"
      unfolding q execute.simps by (cases "tsquery_ok fts txt") simp_all
    with assms(1) obtain rs where
      lo: "limit_offset params ?xs = Inr rs"
      and res: "res = map (select_columns DEFAULT_LEAD_FIELDS) rs"
      unfolding q execute.simps parse_columns_default
      by (cases "limit_offset params ?xs") simp_all
    from limit_offset_subset[OF lo] have "set rs \<subseteq> set (leads db)" by auto
    with res show ?thesis by blast
  qed
qed

text \<open>Every answer of status 200 of \<open>_get_all_leads\<close> lists the leads of rows of the
  table.\<close>

lemma get_all_leads_200:
  assumes "get_all_leads pp fts db args = Inr (body, 200)"
  shows "\<exists>rs ls page perpage. set rs \<subseteq> set (leads db) \<and>
           body = JObject [(''count'', JVal (JInt (int (length ls)))),
                           (''query'', JObject [(''page'', JVal (JInt page)),
                                                (''perpage'', JVal (JInt perpage))]),
                           (''leads'', JArray (map json_of_dict ls))] \<and>
           map (lead_of_row (include_fields (args ''include'')) (drop_null_flag (args ''drop_null'')))
             (map (select_columns DEFAULT_LEAD_FIELDS) rs) = map Inr ls"
proof (cases "pp args")
  case (Inl e)
  with assms show ?thesis by (simp add: get_all_leads_def)
next
  case (Inr p)
  obtain page perpage where p: "p = (page, perpage)" by (cases p)
  let ?q = "case args ''search'' of
              None \<Rightarrow> Select_page (join '','' DEFAULT_LEAD_FIELDS)
            | Some txt \<Rightarrow> Select_search (join '','' DEFAULT_LEAD_FIELDS) txt"
  let ?params = "[(''limit'', JInt perpage), (''offset'', JInt ((page - 1) * perpage))]"
  from assms Inr p obtain res db' where ex: "execute fts db ?q ?params = Inr (res, db')"
    by (cases "execute fts db ?q ?params") (auto simp: get_all_leads_def Let_def)
  have "?q = Select_page (join '','' DEFAULT_LEAD_FIELDS) \<or>
        ?q = Select_search (join '','' DEFAULT_LEAD_FIELDS) (the (args ''search''))"
    by (cases "args ''search''") auto
  from execute_select_rows[OF ex this] obtain rs where
    rs: "set rs \<subseteq> set (leads db)" and res: "res = map (select_columns DEFAULT_LEAD_FIELDS) rs"
    by blast
  from get_all_leads_answer[of pp args page perpage fts db rs db'] Inr p ex res
  obtain ls where
    ans: "get_all_leads pp fts db args =
           Inr (JObject [(''count'', JVal (JInt (int (length ls)))),
                         (''query'', JObject [(''page'', JVal (JInt page)),
                                              (''perpage'', JVal (JInt perpage))]),
                         (''leads'', JArray (map json_of_dict ls))], 200)"
    and ls: "map (lead_of_row (include_fields (args ''include'')) (drop_null_flag (args ''drop_null'')))
           (map (select_columns DEFAULT_LEAD_FIELDS) rs) = map Inr ls"
    by auto
  from ans assms have "body = JObject [(''count'', JVal (JInt (int (length ls)))),
                         (''query'', JObject [(''page'', JVal (JInt page)),
                                              (''perpage'', JVal (JInt perpage))]),
                         (''leads'', JArray (map json_of_dict ls))]" by simp
  with rs ls show ?thesis by blast
qed

lemma map_eq_Inr_mem:
  "map f xs = map Inr ls \<Longrightarrow> l \<in> set ls \<Longrightarrow> \<exists>x\<in>set xs. f x = Inr l"
  by (induction xs arbitrary: ls) (auto simp: Cons_eq_map_conv)

text \<open>Each object of the \<open>leads\<close> array of an answer is the dictionary the loop builds
  for a row of the table.\<close>

lemma get_all_leads_object:
  assumes "get_all_leads pp fts db args = Inr (JObject [c, q, (''leads'', JArray objs)], 200)"
    and "obj \<in> set objs"
  shows "\<exists>r lead. r \<in> set (leads db) \<and> obj = json_of_dict lead \<and>
           lead_of_row (include_fields (args ''include'')) (drop_null_flag (args ''drop_null''))
             (select_columns DEFAULT_LEAD_FIELDS r) = Inr lead"
proof -
  from get_all_leads_200[OF assms(1)] obtain rs ls where
    rs: "set rs \<subseteq> set (leads db)" and objs: "objs = map json_of_dict ls"
    and ls: "map (lead_of_row (include_fields (args ''include'')) (drop_null_flag (args ''drop_null'')))
             (map (select_columns DEFAULT_LEAD_FIELDS) rs) = map Inr ls"
    by auto
  from assms(2) objs obtain lead where lead: "lead \<in> set ls" and obj: "obj = json_of_dict lead"
    by auto
  from map_eq_Inr_mem[OF ls lead] obtain x where
    x: "x \<in> set (map (select_columns DEFAULT_LEAD_FIELDS) rs)"
    and lx: "lead_of_row (include_fields (args ''include'')) (drop_null_flag (args ''drop_null'')) x
             = Inr lead"
    by blast
  from x obtain r where "r \<in> set rs" and "x = select_columns DEFAULT_LEAD_FIELDS r"
    by auto
  with lx have "r \<in> set rs"
    and "lead_of_row (include_fields (args ''include'')) (drop_null_flag (args ''drop_null''))
           (select_columns DEFAULT_LEAD_FIELDS r) = Inr lead"
    by simp_all
  with rs obj show ?thesis by blast
qed

subsection \<open>The fields of a lead object\<close>

text \<open>The answer for rows whose dictionaries are known.\<close>

lemma get_all_leads_eval:
  assumes "pp args = Inr (page, perpage)"
    and "execute fts db
               (case args ''search'' of
                  None \<Rightarrow> Select_page (join '','' DEFAULT_LEAD_FIELDS)
                | Some txt \<Rightarrow> Select_search (join '','' DEFAULT_LEAD_FIELDS) txt)
               [(''limit'', JInt perpage), (''offset'', JInt ((page - 1) * perpage))] =
             Inr (map (select_columns DEFAULT_LEAD_FIELDS) rs, db')"
    and "map (lead_of_row (include_fields (args ''include'')) (drop_null_flag (args ''drop_null'')))
           (map (select_columns DEFAULT_LEAD_FIELDS) rs) = map Inr ls"
  shows "get_all_leads pp fts db args =
           Inr (JObject [(''count'', JVal (JInt (int (length ls)))),
                         (''query'', JObject [(''page'', JVal (JInt page)),
                                              (''perpage'', JVal (JInt perpage))]),
                         (''leads'', JArray (map json_of_dict ls))], 200)"
proof -
  from get_all_leads_answer[of pp args page perpage fts db rs db'] assms(1,2) obtain ls' where
    ans: "get_all_leads pp fts db args =
           Inr (JObject [(''count'', JVal (JInt (int (length ls')))),
                         (''query'', JObject [(''page'', JVal (JInt page)),
                                              (''perpage'', JVal (JInt perpage))]),
                         (''leads'', JArray (map json_of_dict ls'))], 200)"
    and ls': "map (lead_of_row (include_fields (args ''include'')) (drop_null_flag (args ''drop_null'')))
           (map (select_columns DEFAULT_LEAD_FIELDS) rs) = map Inr ls'"
    by blast
  from ls' assms(3) have "map Inr ls' = (map Inr ls :: (error + jvalue dict) list)" by simp
  then have "ls' = ls" by (simp add: inj_map_eq_map)
  with ans show ?thesis by simp
qed

text \<open>
  C2, as stated, fails: with \<open>drop_null=true\<close> and no \<open>include\<close>, the object of a
  lead whose only value is its \<open>id\<close> has the key \<open>id\<close> alone, not the 23 fixed
  fields.
\<close>

theorem lead_object_fields_counterexample:
  "get_all_leads (\<lambda>a. Inr (1, 10))
     \<lparr>tsquery_ok = (\<lambda>s. True), ts_match = (\<lambda>v s. True), ts_rank = (\<lambda>v s. 0::nat)\<rparr>
     \<lparr>leads = [(\<lambda>c. JNull)(''id'' := JInt 1)], next_id = 2\<rparr>
     [''drop_null'' \<mapsto> ''true''] =
   Inr (JObject [(''count'', JVal (JInt 1)),
                 (''query'', JObject [(''page'', JVal (JInt 1)), (''perpage'', JVal (JInt 10))]),
                 (''leads'', JArray [json_of_dict [(''id'', JInt 1)]])], 200) \<and>
   set (keys [(''id'', JInt 1)]) \<noteq> set DEFAULT_LEAD_FIELDS"
proof -
  let ?r = "(\<lambda>c. JNull)(''id'' := JInt 1)"
  have lead: "lead_of_row DEFAULT_LEAD_FIELDS True (select_columns DEFAULT_LEAD_FIELDS ?r) =
              Inr [(''id'', JInt 1)]"
    by (simp add: lead_of_row_select dict_of_items_def) (simp add: DEFAULT_LEAD_FIELDS_def)
  have "get_all_leads (\<lambda>a. Inr (1, 10))
     \<lparr>tsquery_ok = (\<lambda>s. True), ts_match = (\<lambda>v s. True), ts_rank = (\<lambda>v s. 0::nat)\<rparr>
     \<lparr>leads = [?r], next_id = 2\<rparr> [''drop_null'' \<mapsto> ''true''] =
   Inr (JObject [(''count'', JVal (JInt 1)),
                 (''query'', JObject [(''page'', JVal (JInt 1)), (''perpage'', JVal (JInt 10))]),
                 (''leads'', JArray [json_of_dict [(''id'', JInt 1)]])], 200)"
    using get_all_leads_eval[of "\<lambda>a. Inr (1, 10)" "[''drop_null'' \<mapsto> ''true'']" 1 10
        "\<lparr>tsquery_ok = (\<lambda>s. True), ts_match = (\<lambda>v s. True), ts_rank = (\<lambda>v s. 0::nat)\<rparr>"
        "\<lparr>leads = [?r], next_id = 2\<rparr>" "[?r]" "\<lparr>leads = [?r], next_id = 2\<rparr>"
        "[[(''id'', JInt 1)]]"]
    by (simp add: execute_select_page include_fields_def drop_null_flag_def lower_def
        char_lower_def lead row_id_def)
  moreover have "set (keys [(''id'', JInt 1)]) \<noteq> set DEFAULT_LEAD_FIELDS"
    by (simp add: keys_def DEFAULT_LEAD_FIELDS_def)
  ultimately show ?thesis by simp
qed

lemma set_include_fields:
  "set (include_fields a) =
     (case a of
        None \<Rightarrow> set DEFAULT_LEAD_FIELDS
      | Some txt \<Rightarrow> lower ` set (split CHR '','' txt) \<inter> set DEFAULT_LEAD_FIELDS)"
proof (cases a)
  case None
  then show ?thesis by (simp add: include_fields_def)
next
  case (Some incl)
  then show ?thesis by (auto simp: include_fields_Some)
qed

lemma keys_filter_fields:
  "set (keys (filter (\<lambda>(k, v). v \<noteq> JNull) (dict_of_items (map (\<lambda>f. (f, r f)) fs)))) =
     {f \<in> set fs. r f \<noteq> JNull}"
  by (auto simp: keys_def set_dict_of_fields image_iff)

lemma keys_fields: "set (keys (dict_of_items (map (\<lambda>f. (f, r f)) fs))) = set fs"
  by (simp add: keys_dict_of_items image_image)

text \<open>
  C2, amended. Each object of the \<open>leads\<close> array of an answer is the dictionary of a row
  of the table: it pairs each of its keys, once, with the value the row has in that column.
  Unless \<open>drop_null\<close> is set, its keys are exactly the names of \<open>include\<close> (split at
  the commas, in lower case) that are fixed fields, or the 23 fixed fields when
  \<open>include\<close> is omitted; when \<open>drop_null\<close> is set, its keys are those of them whose
  value in the row is not null.
\<close>

theorem lead_object_fields:
  assumes "get_all_leads parse_pagination_params fts db args =
             Inr (JObject [c, q, (''leads'', JArray objs)], 200)"
    and "obj \<in> set objs"
  shows "\<exists>r lead. r \<in> set (leads db) \<and> obj = json_of_dict lead \<and>
           distinct (keys lead) \<and>
           list_all (\<lambda>(k, v). v = r k) lead \<and>
           set (keys lead) =
             {f \<in> (case args ''include'' of
                      None \<Rightarrow> set DEFAULT_LEAD_FIELDS
                    | Some txt \<Rightarrow> lower ` set (split CHR '','' txt) \<inter> set DEFAULT_LEAD_FIELDS).
                drop_null_flag (args ''drop_null'') \<longrightarrow> r f \<noteq> JNull}"
proof -
  let ?incl = "include_fields (args ''include'')"
  let ?dn = "drop_null_flag (args ''drop_null'')"
  from get_all_leads_object[OF assms] obtain r lead where
    r: "r \<in> set (leads db)" and obj: "obj = json_of_dict lead"
    and lead: "lead_of_row ?incl ?dn (select_columns DEFAULT_LEAD_FIELDS r) = Inr lead"
    by blast
  let ?full = "dict_of_items (map (\<lambda>f. (f, r f)) ?incl)"
  from lead have eq: "lead = (if ?dn then filter (\<lambda>(k, v). v \<noteq> JNull) ?full else ?full)"
    by (simp add: lead_of_row_select[OF include_fields_subset])
  then have "set (keys lead) = {f \<in> set ?incl. ?dn \<longrightarrow> r f \<noteq> JNull}"
    by (simp add: keys_filter_fields keys_fields)
  then have ks: "set (keys lead) =
             {f \<in> (case args ''include'' of
                      None \<Rightarrow> set DEFAULT_LEAD_FIELDS
                    | Some txt \<Rightarrow> lower ` set (split CHR '','' txt) \<inter> set DEFAULT_LEAD_FIELDS).
                ?dn \<longrightarrow> r f \<noteq> JNull}"
    by (simp only: set_include_fields)
  have df: "distinct (map fst ?full)"
    using distinct_dict_of_items[of "map (\<lambda>f. (f, r f)) ?incl"] by (simp add: keys_def)
  then have "distinct (map fst (filter (\<lambda>(k, v). v \<noteq> JNull) ?full))"
    by (rule distinct_map_filter)
  with df eq have d: "distinct (keys lead)"
    by (simp add: keys_def)
  have "list_all (\<lambda>(k, v). v = r k) ?full"
    by (auto simp: list_all_iff set_dict_of_fields)
  with eq have vs: "list_all (\<lambda>(k, v). v = r k) lead"
    by (auto simp: list_all_iff)
  from r obj d vs ks show ?thesis by blast
qed

text \<open>An instance: \<open>include=ID,Phone,nope\<close> with \<open>drop_null=true\<close>, for a lead that has
  an \<open>id\<close> and no phone. The object of the answer has the key \<open>id\<close> alone.\<close>

theorem lead_object_fields_witness:
  "\<exists>r lead. r \<in> set [(\<lambda>c. JNull)(''id'' := JInt 1)] \<and>
      json_of_dict [(''id'', JInt 1)] = json_of_dict lead \<and>
      distinct (keys lead) \<and>
      list_all (\<lambda>(k, v). v = r k) lead \<and>
      set (keys lead) =
        {f \<in> lower ` set (split CHR '','' ''ID,Phone,nope'') \<inter> set DEFAULT_LEAD_FIELDS.
           drop_null_flag (Some ''true'') \<longrightarrow> r f \<noteq> JNull}"
proof -
  let ?r = "(\<lambda>c. JNull)(''id'' := JInt 1)"
  let ?fts = "\<lparr>tsquery_ok = (\<lambda>s. True), ts_match = (\<lambda>v s. True), ts_rank = (\<lambda>v s. 0::nat)\<rparr>"
  let ?db = "\<lparr>leads = [?r], next_id = 2\<rparr>"
  let ?args = "[''drop_null'' \<mapsto> ''true'', ''include'' \<mapsto> ''ID,Phone,nope'']"
  have inc: "include_fields (Some ''ID,Phone,nope'') = [''id'', ''phone'']"
    by (simp add: include_fields_def lower_def char_lower_def strip_def is_space_def
        DEFAULT_LEAD_FIELDS_def)
  have sub: "set [''id'', ''phone''] \<subseteq> set DEFAULT_LEAD_FIELDS"
    by (simp add: DEFAULT_LEAD_FIELDS_def)
  have lead: "lead_of_row [''id'', ''phone''] True (select_columns DEFAULT_LEAD_FIELDS ?r) =
              Inr [(''id'', JInt 1)]"
    by (simp add: lead_of_row_select[OF sub] dict_of_items_def)
  have ans: "get_all_leads (\<lambda>a. Inr (1, 10)) ?fts ?db ?args =
   Inr (JObject [(''count'', JVal (JInt 1)),
                 (''query'', JObject [(''page'', JVal (JInt 1)), (''perpage'', JVal (JInt 10))]),
                 (''leads'', JArray [json_of_dict [(''id'', JInt 1)]])], 200)"
    using get_all_leads_eval[of "\<lambda>a. Inr (1, 10)" ?args 1 10 ?fts ?db "[?r]" ?db
        "[[(''id'', JInt 1)]]"]
    by (simp add: execute_select_page inc drop_null_flag_def lower_def char_lower_def lead
        row_id_def)
  show ?thesis
    using lead_object_fields[OF ans, of "json_of_dict [(''id'', JInt 1)]"] by simp
qed

subsection \<open>The drop_null flag\<close>

text \<open>An answer for \<open>drop_null=TRUE\<close>, a lead with an \<open>id\<close> and no phone.\<close>

lemma get_all_leads_upper_case_flag:
  "get_all_leads (\<lambda>a. Inr (1, 10))
     \<lparr>tsquery_ok = (\<lambda>s. True), ts_match = (\<lambda>v s. True), ts_rank = (\<lambda>v s. 0::nat)\<rparr>
     \<lparr>leads = [(\<lambda>c. JNull)(''id'' := JInt 1)], next_id = 2\<rparr>
     [''drop_null'' \<mapsto> ''TRUE'', ''include'' \<mapsto> ''id,phone''] =
   Inr (JObject [(''count'', JVal (JInt 1)),
                 (''query'', JObject [(''page'', JVal (JInt 1)), (''perpage'', JVal (JInt 10))]),
                 (''leads'', JArray [JObject [(''id'', JVal (JInt 1))]])], 200)"
proof -
  let ?r = "(\<lambda>c. JNull)(''id'' := JInt 1)"
  let ?fts = "\<lparr>tsquery_ok = (\<lambda>s. True), ts_match = (\<lambda>v s. True), ts_rank = (\<lambda>v s. 0::nat)\<rparr>"
  let ?db = "\<lparr>leads = [?r], next_id = 2\<rparr>"
  let ?args = "[''drop_null'' \<mapsto> ''TRUE'', ''include'' \<mapsto> ''id,phone'']"
  have inc: "include_fields (Some ''id,phone'') = [''id'', ''phone'']"
    by (simp add: include_fields_def lower_def char_lower_def strip_def is_space_def
        DEFAULT_LEAD_FIELDS_def)
  have sub: "set [''id'', ''phone''] \<subseteq> set DEFAULT_LEAD_FIELDS"
    by (simp add: DEFAULT_LEAD_FIELDS_def)
  have lead: "lead_of_row [''id'', ''phone''] True (select_columns DEFAULT_LEAD_FIELDS ?r) =
              Inr [(''id'', JInt 1)]"
    by (simp add: lead_of_row_select[OF sub] dict_of_items_def)
  show ?thesis
    using get_all_leads_eval[of "\<lambda>a. Inr (1, 10)" ?args 1 10 ?fts ?db "[?r]" ?db
        "[[(''id'', JInt 1)]]"]
    by (simp add: execute_select_page inc drop_null_flag_def lower_def char_lower_def lead
        row_id_def json_of_dict_def)
qed

text \<open>
  C6, as stated, fails: \<open>drop_null=TRUE\<close> is a value other than \<open>true\<close>, and yet
  the key \<open>phone\<close>, whose value is null, is removed from the lead.
\<close>

theorem drop_null_counterexample:
  "''TRUE'' \<noteq> ''true'' \<and>
   get_all_leads (\<lambda>a. Inr (1, 10))
     \<lparr>tsquery_ok = (\<lambda>s. True), ts_match = (\<lambda>v s. True), ts_rank = (\<lambda>v s. 0::nat)\<rparr>
     \<lparr>leads = [(\<lambda>c. JNull)(''id'' := JInt 1)], next_id = 2\<rparr>
     [''drop_null'' \<mapsto> ''TRUE'', ''include'' \<mapsto> ''id,phone''] =
   Inr (JObject [(''count'', JVal (JInt 1)),
                 (''query'', JObject [(''page'', JVal (JInt 1)), (''perpage'', JVal (JInt 10))]),
                 (''leads'', JArray [JObject [(''id'', JVal (JInt 1))]])], 200)"
  using get_all_leads_upper_case_flag by simp

text \<open>
  C6, amended. The flag is read without regard to the case of its letters. Each object of
  the \<open>leads\<close> array comes from a dictionary that pairs every included field with its
  value in a row of the table. When \<open>drop_null\<close>, in lower case, is \<open>true\<close>, the
  object is that dictionary without the items whose value is null; when \<open>drop_null\<close> is
  absent or anything else, it is the whole dictionary, null values included.
\<close>

theorem lead_object_drop_null:
  assumes "get_all_leads parse_pagination_params fts db args =
             Inr (JObject [c, q, (''leads'', JArray objs)], 200)"
    and "obj \<in> set objs"
  shows "\<exists>r full. r \<in> set (leads db) \<and>
           set (keys full) = set (include_fields (args ''include'')) \<and>
           list_all (\<lambda>(k, v). v = r k) full \<and>
           obj = json_of_dict
                   (if (case args ''drop_null'' of None \<Rightarrow> False | Some flag \<Rightarrow> lower flag = ''true'')
                    then filter (\<lambda>(k, v). v \<noteq> JNull) full
                    else full)"
proof -
  let ?incl = "include_fields (args ''include'')"
  let ?dn = "drop_null_flag (args ''drop_null'')"
  from get_all_leads_object[OF assms] obtain r lead where
    r: "r \<in> set (leads db)" and obj: "obj = json_of_dict lead"
    and lead: "lead_of_row ?incl ?dn (select_columns DEFAULT_LEAD_FIELDS r) = Inr lead"
    by blast
  let ?full = "dict_of_items (map (\<lambda>f. (f, r f)) ?incl)"
  have dn: "?dn = (case args ''drop_null'' of None \<Rightarrow> False | Some flag \<Rightarrow> lower flag = ''true'')"
    by (cases "args ''drop_null''") (simp_all add: drop_null_flag_def lower_def char_lower_def)
  from lead have "lead = (if ?dn then filter (\<lambda>(k, v). v \<noteq> JNull) ?full else ?full)"
    by (simp add: lead_of_row_select[OF include_fields_subset])
  with obj dn have "obj = json_of_dict
                   (if (case args ''drop_null'' of None \<Rightarrow> False | Some flag \<Rightarrow> lower flag = ''true'')
                    then filter (\<lambda>(k, v). v \<noteq> JNull) ?full
                    else ?full)"
    by simp
  moreover have "set (keys ?full) = set ?incl" by (rule keys_fields)
  moreover have "list_all (\<lambda>(k, v). v = r k) ?full"
    by (auto simp: list_all_iff set_dict_of_fields)
  ultimately show ?thesis using r by blast
qed

text \<open>An instance: \<open>drop_null=TRUE\<close> and \<open>include=id,phone\<close>, for a lead that has an
  \<open>id\<close> and no phone.\<close>

theorem lead_object_drop_null_witness:
  "\<exists>r full. r \<in> set [(\<lambda>c. JNull)(''id'' := JInt 1)] \<and>
      set (keys full) = set (include_fields (Some ''id,phone'')) \<and>
      list_all (\<lambda>(k, v). v = r k) full \<and>
      JObject [(''id'', JVal (JInt 1))] =
        json_of_dict (if lower ''TRUE'' = ''true'' then filter (\<lambda>(k, v). v \<noteq> JNull) full else full)"
  using lead_object_drop_null[of "\<lambda>a. Inr (1, 10)"
      "\<lparr>tsquery_ok = (\<lambda>s. True), ts_match = (\<lambda>v s. True), ts_rank = (\<lambda>v s. 0::nat)\<rparr>"
      "\<lparr>leads = [(\<lambda>c. JNull)(''id'' := JInt 1)], next_id = 2\<rparr>"
      "[''drop_null'' \<mapsto> ''TRUE'', ''include'' \<mapsto> ''id,phone'']"
      "(''count'', JVal (JInt 1))"
      "(''query'', JObject [(''page'', JVal (JInt 1)), (''perpage'', JVal (JInt 10))])"
      "[JObject [(''id'', JVal (JInt 1))]]" "JObject [(''id'', JVal (JInt 1))]"]
    get_all_leads_upper_case_flag
  by simp

subsection \<open>Statements built from a body\<close>

lemma default_field_chars:
  "f \<in> set DEFAULT_LEAD_FIELDS \<Longrightarrow> CHR '','' \<notin> set f \<and> CHR ''='' \<notin> set f \<and> f \<noteq> []"
  by (auto simp: DEFAULT_LEAD_FIELDS_def)

lemma those_all_map:
  "(\<And>x. x \<in> set xs \<Longrightarrow> f x = Some (g x)) \<Longrightarrow> those_all (map f xs) = Some (map g xs)"
  by (induction xs) auto

lemma dict_get_member:
  "distinct (keys d) \<Longrightarrow> (k, v) \<in> set d \<Longrightarrow> dict_get d k = Some v"
  by (simp add: dict_get_def keys_def)

lemma bind_keys: "distinct (keys body) \<Longrightarrow> bind body (keys body) = Some (map snd body)"
proof -
  assume d: "distinct (keys body)"
  have "those_all (map (\<lambda>kv. dict_get body (fst kv)) body) = Some (map snd body)"
    by (rule those_all_map) (use d in \<open>auto simp: dict_get_member\<close>)
  then show ?thesis by (simp add: bind_def keys_def comp_def)
qed

lemma bind_Cons:
  "k0 \<notin> set ks \<Longrightarrow> bind ((k0, v0) # body) ks = bind body ks"
proof -
  assume "k0 \<notin> set ks"
  then have "map (dict_get ((k0, v0) # body)) ks = map (dict_get body) ks"
    by (intro map_cong) (auto simp: dict_get_def)
  then show ?thesis by (simp only: bind_def)
qed

lemma zip_keys_values: "zip (keys body) (map snd body) = body"
  by (simp add: keys_def zip_map_fst_snd)

lemma assign_distinct:
  "distinct (keys cvs) \<Longrightarrow>
   assign cvs r k = (case dict_get cvs k of None \<Rightarrow> r k | Some v \<Rightarrow> v)"
proof (induction cvs arbitrary: r)
  case Nil
  then show ?case by (simp add: assign_def dict_get_def)
next
  case (Cons cv cvs)
  obtain c v where cv: "cv = (c, v)" by (cases cv)
  from Cons.prems have d: "distinct (keys cvs)" and c: "c \<notin> set (keys cvs)"
    by (simp_all add: cv keys_def)
  have "assign (cv # cvs) r k = assign cvs (r(c := v)) k"
    by (simp add: assign_def cv)
  also have "\<dots> = (case dict_get cvs k of None \<Rightarrow> (r(c := v)) k | Some v' \<Rightarrow> v')"
    by (rule Cons.IH[OF d])
  also have "\<dots> = (case dict_get (cv # cvs) k of None \<Rightarrow> r k | Some v' \<Rightarrow> v')"
  proof (cases "k = c")
    case True
    with c have "dict_get cvs k = None"
      by (simp add: dict_get_def keys_def map_of_eq_None_iff)
    with True show ?thesis by (simp add: dict_get_def cv)
  next
    case False
    then show ?thesis by (simp add: dict_get_def cv split: option.split)
  qed
  finally show ?case .
qed

text \<open>How the database reads the column list, the placeholders and the \<open>SET\<close> clause
  that the handlers format from the keys of a body.\<close>

lemma parse_columns_keys:
  assumes "ks \<noteq> []" and "set ks \<subseteq> set DEFAULT_LEAD_FIELDS"
  shows "parse_columns (join '','' ks) = Inr ks"
proof -
  have "list_all (\<lambda>x. CHR '','' \<notin> set x) ks"
    using assms(2) default_field_chars by (auto simp: list_all_iff)
  with assms(1) have "split CHR '','' (join '','' ks) = ks" by (rule split_join)
  moreover have "[] \<notin> set ks" using assms(2) default_field_chars by auto
  ultimately show ?thesis
    using assms(2) by (auto simp: parse_columns_def leads_columns_def list_all_iff)
qed

lemma parse_placeholders_keys:
  assumes "ks \<noteq> []" and "set ks \<subseteq> set DEFAULT_LEAD_FIELDS"
  shows "those_all (map parse_placeholder
           (split CHR '','' (join '','' (map (\<lambda>column. '':'' @ column) ks)))) = Some ks"
proof -
  have "list_all (\<lambda>x. CHR '','' \<notin> set x) (map (\<lambda>column. '':'' @ column) ks)"
    using assms(2) default_field_chars by (auto simp: list_all_iff)
  moreover have "map (\<lambda>column. '':'' @ column) ks \<noteq> []" using assms(1) by simp
  ultimately have "split CHR '','' (join '','' (map (\<lambda>column. '':'' @ column) ks)) =
                   map (\<lambda>column. '':'' @ column) ks"
    by (intro split_join)
  moreover have "those_all (map (\<lambda>k. parse_placeholder ('':'' @ k)) ks) = Some (map (\<lambda>k. k) ks)"
    by (rule those_all_map) (use assms(2) default_field_chars in auto)
  ultimately show ?thesis by (simp add: comp_def)
qed

lemma parse_assignment_field:
  assumes "f \<in> set DEFAULT_LEAD_FIELDS"
  shows "parse_assignment (f @ ''=:'' @ f) = Some (f, f)"
proof -
  from default_field_chars[OF assms] have eq: "CHR ''='' \<notin> set f" and ne: "f \<noteq> []" by simp_all
  have "split CHR ''='' (f @ CHR ''='' # ('':'' @ f)) = f # split CHR ''='' ('':'' @ f)"
    using eq by (rule split_append_sep)
  moreover have "split CHR ''='' ('':'' @ f) = ['':'' @ f]"
    using eq by (intro split_no_sep) simp
  ultimately show ?thesis using ne by (simp add: parse_assignment_def)
qed

lemma parse_assignments_keys:
  assumes "ks \<noteq> []" and "set ks \<subseteq> set DEFAULT_LEAD_FIELDS"
  shows "those_all (map parse_assignment
           (split CHR '','' (join '','' (map (\<lambda>field. field @ ''=:'' @ field) ks)))) =
         Some (map (\<lambda>f. (f, f)) ks)"
proof -
  have "list_all (\<lambda>x. CHR '','' \<notin> set x) (map (\<lambda>field. field @ ''=:'' @ field) ks)"
    using assms(2) default_field_chars by (auto simp: list_all_iff)
  moreover have "map (\<lambda>field. field @ ''=:'' @ field) ks \<noteq> []" using assms(1) by simp
  ultimately have "split CHR '','' (join '','' (map (\<lambda>field. field @ ''=:'' @ field) ks)) =
                   map (\<lambda>field. field @ ''=:'' @ field) ks"
    by (intro split_join)
  moreover have "those_all (map (\<lambda>f. parse_assignment (f @ ''=:'' @ f)) ks) =
                 Some (map (\<lambda>f. (f, f)) ks)"
    by (rule those_all_map) (use assms(2) parse_assignment_field in auto)
  ultimately show ?thesis by (simp add: comp_def)
qed

subsection \<open>Bodies and the statements of one lead\<close>

lemma dict_of_items_Nil_iff: "dict_of_items xs = [] \<longleftrightarrow> xs = []"
proof
  assume "dict_of_items xs = []"
  then have "set (keys (dict_of_items xs)) = {}" by (simp add: keys_Nil)
  then show "xs = []" by (simp add: keys_dict_of_items)
next
  assume "xs = []"
  then show "dict_of_items xs = []" by (simp add: dict_of_items_def)
qed

lemma keys_modify_body:
  "set (keys (modify_body js)) = {k \<in> fst ` set js. k \<noteq> ''id'' \<and> k \<in> set DEFAULT_LEAD_FIELDS}"
  by (auto simp: modify_body_def keys_dict_of_items image_iff)

lemma distinct_modify_body: "distinct (keys (modify_body js))"
  by (simp add: modify_body_def distinct_dict_of_items)

lemma modify_body_Nil_iff:
  "modify_body js = [] \<longleftrightarrow> list_all (\<lambda>(k, v). k = ''id'' \<or> k \<notin> set DEFAULT_LEAD_FIELDS) js"
  by (auto simp: modify_body_def dict_of_items_Nil_iff filter_empty_conv list_all_iff)


lemma keys_create_body:
  "set (keys (create_body js)) =
     {k \<in> fst ` {kv \<in> set js. snd kv \<noteq> JNull}. k \<noteq> ''id'' \<and> k \<in> set DEFAULT_LEAD_FIELDS}"
  by (auto simp: create_body_def keys_dict_of_items image_iff)

lemma distinct_create_body: "distinct (keys (create_body js))"
  by (simp add: create_body_def distinct_dict_of_items)

lemma create_body_distinct:
  "distinct (map fst js) \<Longrightarrow>
   create_body js =
     filter (\<lambda>(field, v). field \<noteq> ''id'' \<and> field \<in> set DEFAULT_LEAD_FIELDS \<and> v \<noteq> JNull) js"
  by (simp add: create_body_def dict_of_items_distinct distinct_map_filter)

text \<open>The statements of the handlers of one lead.\<close>

lemma execute_select_by_id:
  "execute fts db (Select_by_id (join '','' DEFAULT_LEAD_FIELDS)) [(''id'', JInt i)] =
     Inr (map (select_columns DEFAULT_LEAD_FIELDS) (filter (id_is (JInt i)) (leads db)), db)"
  by (simp add: execute.simps parse_columns_default dict_get_def)

lemma execute_delete:
  "execute fts db Delete_returning [(''id'', JInt i)] =
     Inr (map (select_columns leads_columns) (filter (id_is (JInt i)) (leads db)),
          db\<lparr>leads := filter (\<lambda>r. \<not> id_is (JInt i) r) (leads db)\<rparr>)"
  by (simp add: execute.simps dict_get_def)

lemma execute_update_empty:
  "execute fts db (Update_returning []) params = Inl SyntaxError"
  by (simp add: execute.simps parse_assignment_def)

lemma execute_insert_empty:
  "execute fts db (Insert_returning [] p) params = Inl SyntaxError"
  by (simp add: execute.simps parse_columns_def)

lemma execute_update_body:
  assumes "body \<noteq> []" and "set (keys body) \<subseteq> set DEFAULT_LEAD_FIELDS"
    and "distinct (keys body)" and "''id'' \<notin> set (keys body)"
  shows "execute fts db (Update_returning (updates_text body)) ((''id'', JInt i) # body) =
     Inr (map (\<lambda>r. select_columns leads_columns (assign body r))
            (filter (id_is (JInt i)) (leads db)),
          db\<lparr>leads := map (\<lambda>r. if id_is (JInt i) r then assign body r else r) (leads db)\<rparr>)"
proof -
  from assms(1) have ne: "keys body \<noteq> []" by (simp add: keys_def)
  have p: "those_all (map parse_assignment (split CHR '','' (updates_text body))) =
           Some (map (\<lambda>f. (f, f)) (keys body))"
    unfolding updates_text_def by (rule parse_assignments_keys[OF ne assms(2)])
  have b: "bind ((''id'', JInt i) # body) (keys body) = Some (map snd body)"
    using bind_Cons[OF assms(4)] bind_keys[OF assms(3)] by simp
  have c: "list_all (\<lambda>c. c \<in> set leads_columns) (keys body)"
    using assms(2) by (auto simp: list_all_iff leads_columns_def)
  show ?thesis
    by (simp add: execute.simps p comp_def assms(3) c b dict_get_def zip_keys_values Let_def)
qed

lemma execute_insert_body:
  assumes "body \<noteq> []" and "set (keys body) \<subseteq> set DEFAULT_LEAD_FIELDS"
    and "distinct (keys body)" and "''id'' \<notin> set (keys body)"
  shows "execute fts db
           (Insert_returning (join '','' (keys body))
              (join '','' (map (\<lambda>column. '':'' @ column) (keys body)))) body =
     (if list_ex (\<lambda>r'. r' ''id'' = JInt (next_id db)) (leads db) then Inl UniqueViolation
      else Inr ([select_columns leads_columns
                   (assign body ((\<lambda>c. JNull)(''id'' := JInt (next_id db))))],
                db\<lparr>leads := leads db @ [assign body ((\<lambda>c. JNull)(''id'' := JInt (next_id db)))],
                   next_id := next_id db + 1\<rparr>))"
proof -
  from assms(1) have ne: "keys body \<noteq> []" by (simp add: keys_def)
  from assms(4) have "dict_get body ''id'' = None"
    by (simp add: dict_get_def keys_def map_of_eq_None_iff)
  then have rid: "assign body ((\<lambda>c. JNull)(''id'' := JInt (next_id db))) ''id'' = JInt (next_id db)"
    by (simp add: assign_distinct[OF assms(3)])
  show ?thesis
    unfolding execute.simps parse_columns_keys[OF ne assms(2)]
      parse_placeholders_keys[OF ne assms(2)]
    by (simp add: assms(3) bind_keys[OF assms(3)] zip_keys_values rid Let_def)
qed

subsection \<open>The handlers of one lead\<close>

lemma updates_text_Nil: "updates_text [] = []"
  by (simp add: updates_text_def keys_def)

lemma first_Nil: "first [] = None"
  by (simp add: first_def)

lemma first_Cons: "first (r # rs) = Some r"
  by (simp add: first_def)

lemma filter_none: "filter P xs = [] \<Longrightarrow> filter (\<lambda>x. \<not> P x) xs = xs"
  by (induction xs) (auto split: if_splits)

lemma map_if_none: "filter P xs = [] \<Longrightarrow> map (\<lambda>x. if P x then f x else x) xs = xs"
  by (induction xs) (auto split: if_splits)

text \<open>\<open>_modify_lead_with_id\<close> with a body that keeps no field: the \<open>SET\<close> clause is
  empty and the statement is refused.\<close>

lemma modify_lead_with_id_empty:
  "modify_body js = [] \<Longrightarrow> modify_lead_with_id fts db i js = (Inl SyntaxError, db)"
  by (simp add: modify_lead_with_id_def updates_text_Nil execute_update_empty)

text \<open>\<open>_modify_lead_with_id\<close> with a body that keeps a field.\<close>

lemma modify_lead_with_id_body:
  assumes "modify_body js \<noteq> []"
  shows "modify_lead_with_id fts db i js =
     ((case filter (id_is (JInt i)) (leads db) of
         [] \<Rightarrow> Inr (not_found i [(''body'', json_of_dict js)])
       | r # _ \<Rightarrow>
           Inr (json_of_dict (map (\<lambda>f. (f, assign (modify_body js) r f)) DEFAULT_LEAD_FIELDS),
                200)),
      db\<lparr>leads := map (\<lambda>r. if id_is (JInt i) r then assign (modify_body js) r else r)
                      (leads db)\<rparr>)"
proof -
  have sub: "set (keys (modify_body js)) \<subseteq> set DEFAULT_LEAD_FIELDS"
    and nid: "''id'' \<notin> set (keys (modify_body js))"
    by (auto simp: keys_modify_body)
  note ex = execute_update_body[OF assms sub distinct_modify_body nid, of fts db i]
  show ?thesis
    by (cases "filter (id_is (JInt i)) (leads db)")
      (simp_all add: modify_lead_with_id_def ex first_Nil first_Cons full_lead_select Let_def)
qed

text \<open>The other two handlers of one lead.\<close>

lemma get_lead_by_id_eq:
  "get_lead_by_id fts db i =
     (case filter (id_is (JInt i)) (leads db) of
        [] \<Rightarrow> Inr (not_found i [])
      | r # _ \<Rightarrow> Inr (json_of_dict (map (\<lambda>f. (f, r f)) DEFAULT_LEAD_FIELDS), 200))"
  using full_lead_select
  by (cases "filter (id_is (JInt i)) (leads db)")
    (simp_all add: get_lead_by_id_def execute_select_by_id first_Nil first_Cons
      leads_columns_def)

lemma delete_lead_with_id_eq:
  "delete_lead_with_id fts db i =
     ((case filter (id_is (JInt i)) (leads db) of
         [] \<Rightarrow> Inr (not_found i [])
       | r # _ \<Rightarrow> Inr (json_of_dict (map (\<lambda>f. (f, r f)) DEFAULT_LEAD_FIELDS), 200)),
      db\<lparr>leads := filter (\<lambda>r. \<not> id_is (JInt i) r) (leads db)\<rparr>)"
  by (cases "filter (id_is (JInt i)) (leads db)")
    (simp_all add: delete_lead_with_id_def execute_delete first_Nil first_Cons full_lead_select)

subsection \<open>Updates\<close>

text \<open>
  C8. A \<open>PUT /leads/{id}\<close> whose body is empty, or has no key of the fixed field set
  but \<open>id\<close>, formats the empty text into the \<open>SET\<close> clause: the clause has no
  assignment, the database refuses the statement as a syntax error, and the handler raises
  it, the table left as it was.
\<close>

theorem modify_lead_empty_set_clause:
  assumes "list_all (\<lambda>(k, v). k = ''id'' \<or> k \<notin> set DEFAULT_LEAD_FIELDS) js"
  shows "updates_text (modify_body js) = [] \<and>
         those_all (map parse_assignment (split CHR '','' (updates_text (modify_body js)))) = None \<and>
         execute fts db (Update_returning (updates_text (modify_body js)))
           ((''id'', JInt ident) # modify_body js) = Inl SyntaxError \<and>
         modify_lead_with_id fts db ident js = (Inl SyntaxError, db)"
proof -
  from assms have body: "modify_body js = []" by (simp add: modify_body_Nil_iff)
  then show ?thesis
    by (simp add: updates_text_Nil execute_update_empty modify_lead_with_id_empty
        parse_assignment_def)
qed

text \<open>Two instances: a body with \<open>id\<close> and an unknown key, and the empty body.\<close>

theorem modify_lead_empty_set_clause_witness:
  "updates_text (modify_body [(''id'', JInt 7), (''nickname'', JStr ''Bob'')]) = [] \<and>
   modify_lead_with_id
     \<lparr>tsquery_ok = (\<lambda>s. True), ts_match = (\<lambda>v s. True), ts_rank = (\<lambda>v s. 0::nat)\<rparr>
     \<lparr>leads = [(\<lambda>c. JNull)(''id'' := JInt 7)], next_id = 8\<rparr> 7
     [(''id'', JInt 7), (''nickname'', JStr ''Bob'')] =
   (Inl SyntaxError, \<lparr>leads = [(\<lambda>c. JNull)(''id'' := JInt 7)], next_id = 8\<rparr>) \<and>
   modify_lead_with_id
     \<lparr>tsquery_ok = (\<lambda>s. True), ts_match = (\<lambda>v s. True), ts_rank = (\<lambda>v s. 0::nat)\<rparr>
     \<lparr>leads = [(\<lambda>c. JNull)(''id'' := JInt 7)], next_id = 8\<rparr> 7 [] =
   (Inl SyntaxError, \<lparr>leads = [(\<lambda>c. JNull)(''id'' := JInt 7)], next_id = 8\<rparr>)"
proof -
  have a: "list_all (\<lambda>(k, v). k = ''id'' \<or> k \<notin> set DEFAULT_LEAD_FIELDS)
             [(''id'', JInt 7), (''nickname'', JStr ''Bob'')]"
    by (simp add: DEFAULT_LEAD_FIELDS_def)
  have b: "list_all (\<lambda>(k, v). k = ''id'' \<or> k \<notin> set DEFAULT_LEAD_FIELDS) ([] :: jvalue dict)"
    by simp
  show ?thesis
    using modify_lead_empty_set_clause[OF a,
        of "\<lparr>tsquery_ok = (\<lambda>s. True), ts_match = (\<lambda>v s. True), ts_rank = (\<lambda>v s. 0::nat)\<rparr>"
        "\<lparr>leads = [(\<lambda>c. JNull)(''id'' := JInt 7)], next_id = 8\<rparr>" 7]
      modify_lead_empty_set_clause[OF b,
        of "\<lparr>tsquery_ok = (\<lambda>s. True), ts_match = (\<lambda>v s. True), ts_rank = (\<lambda>v s. 0::nat)\<rparr>"
        "\<lparr>leads = [(\<lambda>c. JNull)(''id'' := JInt 7)], next_id = 8\<rparr>" 7]
    by simp
qed

text \<open>
  The update of a lead by a body that keeps a field. The row of the given \<open>id\<close> gets
  the values of the body, null ones as well, in the columns the body names; its other
  columns, and the other rows, stay as they were; the answer is the projection of the
  updated row on the fixed fields.
\<close>

lemma modify_lead_frame:
  assumes "modify_body js \<noteq> []"
    and "filter (id_is (JInt i)) (leads db) = [r]"
  shows "\<exists>r'. modify_lead_with_id fts db i js =
           (Inr (json_of_dict (map (\<lambda>f. (f, r' f)) DEFAULT_LEAD_FIELDS), 200),
            db\<lparr>leads := map (\<lambda>x. if id_is (JInt i) x then r' else x) (leads db)\<rparr>) \<and>
         (\<forall>f. r' f = (case dict_get (modify_body js) f of None \<Rightarrow> r f | Some v \<Rightarrow> v))"
proof -
  let ?r' = "assign (modify_body js) r"
  have same: "x = r" if "x \<in> set (leads db)" and "id_is (JInt i) x" for x
  proof -
    from that have "x \<in> set (filter (id_is (JInt i)) (leads db))" by simp
    with assms(2) show ?thesis by simp
  qed
  have "map (\<lambda>x. if id_is (JInt i) x then assign (modify_body js) x else x) (leads db) =
        map (\<lambda>x. if id_is (JInt i) x then ?r' else x) (leads db)"
    by (rule map_cong) (auto dest: same)
  then have "modify_lead_with_id fts db i js =
           (Inr (json_of_dict (map (\<lambda>f. (f, ?r' f)) DEFAULT_LEAD_FIELDS), 200),
            db\<lparr>leads := map (\<lambda>x. if id_is (JInt i) x then ?r' else x) (leads db)\<rparr>)"
    by (simp add: modify_lead_with_id_body[OF assms(1)] assms(2))
  moreover have "\<forall>f. ?r' f = (case dict_get (modify_body js) f of None \<Rightarrow> r f | Some v \<Rightarrow> v)"
    by (simp add: assign_distinct[OF distinct_modify_body])
  ultimately show ?thesis by blast
qed

text \<open>With no row of the given \<open>id\<close>, the three handlers of one lead answer 404 with
  the \<open>id\<close> and a message, and the table stays as it was; the update, whose body must
  keep a field, adds the body it was sent.\<close>

lemma not_found_answers:
  assumes "filter (id_is (JInt i)) (leads db) = []"
  shows "get_lead_by_id fts db i = Inr (not_found i [])"
    and "delete_lead_with_id fts db i = (Inr (not_found i []), db)"
    and "modify_body js \<noteq> [] \<Longrightarrow>
         modify_lead_with_id fts db i js = (Inr (not_found i [(''body'', json_of_dict js)]), db)"
proof -
  show "get_lead_by_id fts db i = Inr (not_found i [])"
    by (simp add: get_lead_by_id_eq assms)
  show "delete_lead_with_id fts db i = (Inr (not_found i []), db)"
    by (simp add: delete_lead_with_id_eq assms filter_none[OF assms])
  show "modify_lead_with_id fts db i js = (Inr (not_found i [(''body'', json_of_dict js)]), db)"
    if "modify_body js \<noteq> []"
    by (simp add: modify_lead_with_id_body[OF that] assms map_if_none[OF assms])
qed

subsection \<open>An update with an empty body, a lead that does not exist\<close>

lemma modify_body_Nil: "modify_body [] = []"
  by (simp add: modify_body_def dict_of_items_def)

text \<open>
  C4 (what the code does at the failing input). The lead 1 exists and the body of the
  \<open>PUT\<close> is the empty object, a subset of the fixed fields: the handler raises the
  syntax error of the database and returns no projection of the row.
\<close>

theorem modify_lead_empty_body_existing_row:
  "filter (id_is (JInt 1)) [(\<lambda>c. JNull)(''id'' := JInt 1, ''company_name'' := JStr ''Acme'')] =
     [(\<lambda>c. JNull)(''id'' := JInt 1, ''company_name'' := JStr ''Acme'')] \<and>
   modify_lead_with_id
     \<lparr>tsquery_ok = (\<lambda>s. True), ts_match = (\<lambda>v s. True), ts_rank = (\<lambda>v s. 0::nat)\<rparr>
     \<lparr>leads = [(\<lambda>c. JNull)(''id'' := JInt 1, ''company_name'' := JStr ''Acme'')], next_id = 2\<rparr>
     1 [] =
   (Inl SyntaxError,
    \<lparr>leads = [(\<lambda>c. JNull)(''id'' := JInt 1, ''company_name'' := JStr ''Acme'')], next_id = 2\<rparr>)"
  by (simp add: modify_lead_with_id_empty modify_body_Nil id_is_def)

text \<open>
  C7 (what the code does at the failing input). No lead has the id 999999. \<open>GET\<close> and
  \<open>DELETE\<close> answer 404 with the id and the message, and so does a \<open>PUT\<close> whose body
  keeps a field, which adds the body it was sent; a \<open>PUT\<close> with the empty body raises
  the syntax error of the database instead.
\<close>

theorem missing_lead_answers:
  "get_lead_by_id
     \<lparr>tsquery_ok = (\<lambda>s. True), ts_match = (\<lambda>v s. True), ts_rank = (\<lambda>v s. 0::nat)\<rparr>
     \<lparr>leads = [(\<lambda>c. JNull)(''id'' := JInt 1)], next_id = 2\<rparr> 999999 =
     Inr (JObject [(''params'', JObject [(''id'', JVal (JInt 999999))]),
                   (''message'', JVal (JStr ''Could not find lead with given id.''))], 404) \<and>
   delete_lead_with_id
     \<lparr>tsquery_ok = (\<lambda>s. True), ts_match = (\<lambda>v s. True), ts_rank = (\<lambda>v s. 0::nat)\<rparr>
     \<lparr>leads = [(\<lambda>c. JNull)(''id'' := JInt 1)], next_id = 2\<rparr> 999999 =
     (Inr (JObject [(''params'', JObject [(''id'', JVal (JInt 999999))]),
                    (''message'', JVal (JStr ''Could not find lead with given id.''))], 404),
      \<lparr>leads = [(\<lambda>c. JNull)(''id'' := JInt 1)], next_id = 2\<rparr>) \<and>
   modify_lead_with_id
     \<lparr>tsquery_ok = (\<lambda>s. True), ts_match = (\<lambda>v s. True), ts_rank = (\<lambda>v s. 0::nat)\<rparr>
     \<lparr>leads = [(\<lambda>c. JNull)(''id'' := JInt 1)], next_id = 2\<rparr> 999999
     [(''company_name'', JStr ''Acme'')] =
     (Inr (JObject [(''params'', JObject [(''id'', JVal (JInt 999999))]),
                    (''body'', JObject [(''company_name'', JVal (JStr ''Acme''))]),
                    (''message'', JVal (JStr ''Could not find lead with given id.''))], 404),
      \<lparr>leads = [(\<lambda>c. JNull)(''id'' := JInt 1)], next_id = 2\<rparr>) \<and>
   modify_lead_with_id
     \<lparr>tsquery_ok = (\<lambda>s. True), ts_match = (\<lambda>v s. True), ts_rank = (\<lambda>v s. 0::nat)\<rparr>
     \<lparr>leads = [(\<lambda>c. JNull)(''id'' := JInt 1)], next_id = 2\<rparr> 999999 [] =
     (Inl SyntaxError, \<lparr>leads = [(\<lambda>c. JNull)(''id'' := JInt 1)], next_id = 2\<rparr>)"
proof -
  let ?db = "\<lparr>leads = [(\<lambda>c. JNull)(''id'' := JInt 1)], next_id = 2\<rparr>"
  let ?F = "\<lparr>tsquery_ok = (\<lambda>s. True), ts_match = (\<lambda>v s. True), ts_rank = (\<lambda>v s. 0::nat)\<rparr>"
  have none: "filter (id_is (JInt 999999)) (leads ?db) = []"
    by (simp add: id_is_def)
  have body: "modify_body [(''company_name'', JStr ''Acme'')] = [(''company_name'', JStr ''Acme'')]"
    by (simp add: modify_body_def dict_of_items_def DEFAULT_LEAD_FIELDS_def)
  then have ne: "modify_body [(''company_name'', JStr ''Acme'')] \<noteq> []" by simp
  show ?thesis
    using not_found_answers(1,2)[OF none, where fts = ?F]
      not_found_answers(3)[OF none ne, where fts = ?F]
    by (simp add: not_found_def json_of_dict_def modify_lead_with_id_empty modify_body_Nil)
qed

subsection \<open>Null values in a body\<close>





subsection \<open>Creating a lead\<close>

text \<open>\<open>_create_new_lead\<close>: the early return, and the insert.\<close>

lemma create_new_lead_invalid:
  "validate_data_source valid (create_body js) = Some resp \<Longrightarrow>
   create_new_lead valid fts db js = (Inr resp, db)"
  by (simp add: create_new_lead_def)

text \<open>A body that keeps no field gives an \<open>INSERT\<close> with no column, which the
  database refuses, as it refuses the \<open>UPDATE\<close> with no assignment.\<close>

lemma create_new_lead_empty:
  "create_body js = [] \<Longrightarrow> create_new_lead valid fts db js = (Inl SyntaxError, db)"
  by (simp add: create_new_lead_def validate_data_source_def dict_get_Nil keys_Nil
      execute_insert_empty)

lemma create_new_lead_insert:
  assumes "validate_data_source valid (create_body js) = None"
    and "create_body js \<noteq> []"
    and "\<not> list_ex (\<lambda>r'. r' ''id'' = JInt (next_id db)) (leads db)"
  shows "create_new_lead valid fts db js =
     (Inr (json_of_dict
             (map (\<lambda>f. (f, assign (create_body js) ((\<lambda>c. JNull)(''id'' := JInt (next_id db))) f))
                DEFAULT_LEAD_FIELDS), 200),
      db\<lparr>leads := leads db @ [assign (create_body js) ((\<lambda>c. JNull)(''id'' := JInt (next_id db)))],
         next_id := next_id db + 1\<rparr>)"
proof -
  have sub: "set (keys (create_body js)) \<subseteq> set DEFAULT_LEAD_FIELDS"
    and nid: "''id'' \<notin> set (keys (create_body js))"
    by (auto simp: keys_create_body)
  note ex = execute_insert_body[OF assms(2) sub distinct_create_body nid, of fts db]
  show ?thesis
    by (simp add: create_new_lead_def assms(1,3) ex first_Cons full_lead_select Let_def)
qed

lemma data_source_in_body:
  assumes "distinct (map fst js)" and "(''data_source'', v) \<in> set js" and "v \<noteq> JNull"
  shows "dict_get (create_body js) ''data_source'' = Some v"
proof -
  have "''data_source'' \<in> set DEFAULT_LEAD_FIELDS" by (simp add: DEFAULT_LEAD_FIELDS_def)
  with assms(2,3) have "(''data_source'', v) \<in> set (create_body js)"
    by (simp add: create_body_distinct[OF assms(1)])
  then show ?thesis by (rule dict_get_member[OF distinct_create_body])
qed

text \<open>
  C3, as stated, fails: the empty string, in lower case, is none of the three valid data
  sources, and yet the handler does not answer 422: it inserts the row and answers 200.
\<close>

theorem create_invalid_data_source_counterexample:
  "lower (py_str (JStr '''')) \<notin> set VALID_DATA_SOURCES \<and>
   create_new_lead VALID_DATA_SOURCES
     \<lparr>tsquery_ok = (\<lambda>s. True), ts_match = (\<lambda>v s. True), ts_rank = (\<lambda>v s. 0::nat)\<rparr>
     \<lparr>leads = [], next_id = 1\<rparr> [(''data_source'', JStr '''')] =
   (Inr (json_of_dict
           (map (\<lambda>f. (f, ((\<lambda>c. JNull)(''id'' := JInt 1, ''data_source'' := JStr '''')) f))
              DEFAULT_LEAD_FIELDS), 200),
    \<lparr>leads = [(\<lambda>c. JNull)(''id'' := JInt 1, ''data_source'' := JStr '''')], next_id = 2\<rparr>)"
proof -
  let ?js = "[(''data_source'', JStr '''')]"
  let ?db = "\<lparr>leads = [], next_id = 1\<rparr>"
  have body: "create_body ?js = ?js"
    by (simp add: create_body_def dict_of_items_def DEFAULT_LEAD_FIELDS_def)
  have v: "validate_data_source VALID_DATA_SOURCES (create_body ?js) = None"
    by (simp add: body validate_data_source_def dict_get_def)
  have ne: "create_body ?js \<noteq> []" by (simp add: body)
  have fresh: "\<not> list_ex (\<lambda>r'. r' ''id'' = JInt (next_id ?db)) (leads ?db)" by simp
  have "lower (py_str (JStr '''')) \<notin> set VALID_DATA_SOURCES"
    by (simp add: lower_def VALID_DATA_SOURCES_def)
  then show ?thesis
    using create_new_lead_insert[OF v ne fresh,
        of "\<lparr>tsquery_ok = (\<lambda>s. True), ts_match = (\<lambda>v s. True), ts_rank = (\<lambda>v s. 0::nat)\<rparr>"]
    by (simp add: body assign_def)
qed

text \<open>
  C3, amended. When the body of a \<open>POST /leads\<close> has a \<open>data_source\<close> that Python
  takes for true (a non-empty string, a number other than 0, \<open>true\<close>) and whose text in
  lower case is none of the three valid data sources, the handler answers 422 with a
  message that quotes that text, and executes no statement: the table is as it was.
\<close>

theorem create_invalid_data_source:
  assumes "distinct (map fst js)" and "(''data_source'', v) \<in> set js"
    and "truthy v" and "lower (py_str v) \<notin> set VALID_DATA_SOURCES"
  shows "create_new_lead VALID_DATA_SOURCES fts db js =
           (Inr (JObject [(''message'',
                           JVal (JStr (''Invalid value for the '' @ [CHR 0x22] @ ''data_source'' @
                                       [CHR 0x22] @ '' parameter: '' @ repr (lower (py_str v)))))],
                 422), db)"
proof -
  from assms(3) have "v \<noteq> JNull" by auto
  from data_source_in_body[OF assms(1,2) this] assms(3,4)
  have "validate_data_source VALID_DATA_SOURCES (create_body js) =
          Some (JObject [(''message'', JVal (JStr (invalid_data_source (lower (py_str v)))))], 422)"
    by (simp add: validate_data_source_def Let_def)
  from create_new_lead_invalid[OF this] show ?thesis
    by (simp add: invalid_data_source_def)
qed

text \<open>An instance: the data source \<open>Invalid_Value\<close> is refused with status 422, the
  message quotes \<open>'invalid_value'\<close>, and the table stays empty.\<close>

theorem create_invalid_data_source_witness:
  "create_new_lead VALID_DATA_SOURCES
     \<lparr>tsquery_ok = (\<lambda>s. True), ts_match = (\<lambda>v s. True), ts_rank = (\<lambda>v s. 0::nat)\<rparr>
     \<lparr>leads = [], next_id = 1\<rparr>
     [(''company_name'', JStr ''Acme''), (''data_source'', JStr ''Invalid_Value'')] =
   (Inr (JObject [(''message'',
                   JVal (JStr (''Invalid value for the '' @ [CHR 0x22] @ ''data_source'' @
                               [CHR 0x22] @ '' parameter: '' @ [CHR 0x27] @ ''invalid_value'' @
                               [CHR 0x27])))],
         422), \<lparr>leads = [], next_id = 1\<rparr>)"
proof -
  let ?js = "[(''company_name'', JStr ''Acme''), (''data_source'', JStr ''Invalid_Value'')]"
  have a: "distinct (map fst ?js)" by simp
  have b: "(''data_source'', JStr ''Invalid_Value'') \<in> set ?js" by simp
  have c: "truthy (JStr ''Invalid_Value'')" by simp
  have l: "lower ''Invalid_Value'' = ''invalid_value''"
    by (simp add: lower_def char_lower_def)
  have d: "lower (py_str (JStr ''Invalid_Value'')) \<notin> set VALID_DATA_SOURCES"
    by (simp add: l VALID_DATA_SOURCES_def)
  have r: "repr ''invalid_value'' = [CHR 0x27] @ ''invalid_value'' @ [CHR 0x27]"
    by (simp add: repr_def repr_char_def Let_def)
  from create_invalid_data_source[OF a b c d,
      of "\<lparr>tsquery_ok = (\<lambda>s. True), ts_match = (\<lambda>v s. True), ts_rank = (\<lambda>v s. 0::nat)\<rparr>"
      "\<lparr>leads = [], next_id = 1\<rparr>"]
  show ?thesis by (simp add: l r)
qed

text \<open>
  C9. The \<open>data_source\<close> of a \<open>POST /leads\<close> body is validated in lower case and
  stored as it was sent. When the value is one Python takes for true, the check is on
  \<open>str(value).lower()\<close>: the request is refused with status 422, and nothing is
  inserted, exactly when that text is none of the valid data sources. When the value is one
  Python takes for false (the empty string, 0, \<open>false\<close>), there is no check. A request
  that is not refused binds the value of the body to the statement: the inserted row, and
  the answer, hold the value in the caller's own spelling.
\<close>

theorem create_keeps_data_source_spelling:
  assumes "distinct (map fst js)" and "(''data_source'', v) \<in> set js" and "v \<noteq> JNull"
    and "\<not> list_ex (\<lambda>r. r ''id'' = JInt (next_id db)) (leads db)"
  shows "dict_get (create_body js) ''data_source'' = Some v \<and>
         (if truthy v \<and> lower (py_str v) \<notin> set VALID_DATA_SOURCES
          then create_new_lead VALID_DATA_SOURCES fts db js =
                 (Inr (JObject [(''message'',
                                 JVal (JStr (invalid_data_source (lower (py_str v)))))],
                       422), db)
          else (\<exists>r. create_new_lead VALID_DATA_SOURCES fts db js =
                       (Inr (json_of_dict (map (\<lambda>f. (f, r f)) DEFAULT_LEAD_FIELDS), 200),
                        db\<lparr>leads := leads db @ [r], next_id := next_id db + 1\<rparr>) \<and>
                     r ''data_source'' = v))"
proof -
  let ?r = "assign (create_body js) ((\<lambda>c. JNull)(''id'' := JInt (next_id db)))"
  note ds = data_source_in_body[OF assms(1,2,3)]
  show ?thesis
  proof (cases "truthy v \<and> lower (py_str v) \<notin> set VALID_DATA_SOURCES")
    case True
    with ds have "validate_data_source VALID_DATA_SOURCES (create_body js) =
        Some (JObject [(''message'', JVal (JStr (invalid_data_source (lower (py_str v)))))], 422)"
      by (simp add: validate_data_source_def Let_def)
    from create_new_lead_invalid[OF this, of fts db] ds show ?thesis
      unfolding if_P[OF True] by blast
  next
    case False
    with ds have v: "validate_data_source VALID_DATA_SOURCES (create_body js) = None"
      by (auto simp: validate_data_source_def Let_def)
    from ds have ne: "create_body js \<noteq> []" by (auto simp: dict_get_def)
    have "?r ''data_source'' = v"
      by (simp add: assign_distinct[OF distinct_create_body] ds)
    with create_new_lead_insert[OF v ne assms(4), of fts]
    have "\<exists>r. create_new_lead VALID_DATA_SOURCES fts db js =
                 (Inr (json_of_dict (map (\<lambda>f. (f, r f)) DEFAULT_LEAD_FIELDS), 200),
                  db\<lparr>leads := leads db @ [r], next_id := next_id db + 1\<rparr>) \<and>
               r ''data_source'' = v"
      by blast
    with ds show ?thesis
      unfolding if_not_P[OF False] by blast
  qed
qed

text \<open>Three instances: \<open>USER_ENTRY\<close>, which is valid only in lower case and is stored as
  it was sent; the empty string, which is not checked and is stored; and \<open>Bogus\<close>, which
  is refused with the lower-case text in the message.\<close>

theorem create_keeps_data_source_spelling_witness:
  "''USER_ENTRY'' \<notin> set VALID_DATA_SOURCES \<and> lower ''USER_ENTRY'' \<in> set VALID_DATA_SOURCES \<and>
   (\<exists>r. create_new_lead VALID_DATA_SOURCES
           \<lparr>tsquery_ok = (\<lambda>s. True), ts_match = (\<lambda>v s. True), ts_rank = (\<lambda>v s. 0::nat)\<rparr>
           \<lparr>leads = [], next_id = 1\<rparr> [(''data_source'', JStr ''USER_ENTRY'')] =
         (Inr (json_of_dict (map (\<lambda>f. (f, r f)) DEFAULT_LEAD_FIELDS), 200),
          \<lparr>leads = [r], next_id = 2\<rparr>) \<and>
         r ''data_source'' = JStr ''USER_ENTRY'') \<and>
   (\<exists>r. create_new_lead VALID_DATA_SOURCES
           \<lparr>tsquery_ok = (\<lambda>s. True), ts_match = (\<lambda>v s. True), ts_rank = (\<lambda>v s. 0::nat)\<rparr>
           \<lparr>leads = [], next_id = 1\<rparr> [(''data_source'', JStr '''')] =
         (Inr (json_of_dict (map (\<lambda>f. (f, r f)) DEFAULT_LEAD_FIELDS), 200),
          \<lparr>leads = [r], next_id = 2\<rparr>) \<and>
         r ''data_source'' = JStr '''') \<and>
   create_new_lead VALID_DATA_SOURCES
     \<lparr>tsquery_ok = (\<lambda>s. True), ts_match = (\<lambda>v s. True), ts_rank = (\<lambda>v s. 0::nat)\<rparr>
     \<lparr>leads = [], next_id = 1\<rparr> [(''data_source'', JStr ''Bogus'')] =
   (Inr (JObject [(''message'', JVal (JStr (invalid_data_source ''bogus'')))], 422),
    \<lparr>leads = [], next_id = 1\<rparr>)"
proof -
  let ?F = "\<lparr>tsquery_ok = (\<lambda>s. True), ts_match = (\<lambda>v s. True), ts_rank = (\<lambda>v s. 0::nat)\<rparr>"
  let ?db = "\<lparr>leads = [], next_id = 1\<rparr>"
  have l: "lower ''USER_ENTRY'' = ''user_entry''"
    by (simp add: lower_def char_lower_def)
  have valid: "lower ''USER_ENTRY'' \<in> set VALID_DATA_SOURCES"
    by (simp add: l VALID_DATA_SOURCES_def)
  have raw: "''USER_ENTRY'' \<notin> set VALID_DATA_SOURCES"
    by (simp add: VALID_DATA_SOURCES_def)
  have lb: "lower ''Bogus'' = ''bogus''"
    by (simp add: lower_def char_lower_def)
  have bogus: "lower ''Bogus'' \<notin> set VALID_DATA_SOURCES"
    by (simp add: lb VALID_DATA_SOURCES_def)
  have fresh: "\<not> list_ex (\<lambda>r. r ''id'' = JInt (next_id ?db)) (leads ?db)" by simp
  have "distinct (map fst [(''data_source'', JStr ''USER_ENTRY'')])"
    and "(''data_source'', JStr ''USER_ENTRY'') \<in> set [(''data_source'', JStr ''USER_ENTRY'')]"
    and "JStr ''USER_ENTRY'' \<noteq> JNull"
    by simp_all
  from create_keeps_data_source_spelling[OF this fresh, of ?F] valid
  have a: "\<exists>r. create_new_lead VALID_DATA_SOURCES ?F ?db [(''data_source'', JStr ''USER_ENTRY'')] =
         (Inr (json_of_dict (map (\<lambda>f. (f, r f)) DEFAULT_LEAD_FIELDS), 200),
          \<lparr>leads = [r], next_id = 2\<rparr>) \<and>
         r ''data_source'' = JStr ''USER_ENTRY''"
    by simp
  have "distinct (map fst [(''data_source'', JStr '''')])"
    and "(''data_source'', JStr '''') \<in> set [(''data_source'', JStr '''')]"
    and "JStr '''' \<noteq> JNull"
    by simp_all
  from create_keeps_data_source_spelling[OF this fresh, of ?F]
  have b: "\<exists>r. create_new_lead VALID_DATA_SOURCES ?F ?db [(''data_source'', JStr '''')] =
         (Inr (json_of_dict (map (\<lambda>f. (f, r f)) DEFAULT_LEAD_FIELDS), 200),
          \<lparr>leads = [r], next_id = 2\<rparr>) \<and>
         r ''data_source'' = JStr ''''"
    by simp
  have "distinct (map fst [(''data_source'', JStr ''Bogus'')])"
    and "(''data_source'', JStr ''Bogus'') \<in> set [(''data_source'', JStr ''Bogus'')]"
    and "JStr ''Bogus'' \<noteq> JNull"
    by simp_all
  from create_keeps_data_source_spelling[OF this fresh, of ?F] bogus
  have c: "create_new_lead VALID_DATA_SOURCES ?F ?db [(''data_source'', JStr ''Bogus'')] =
   (Inr (JObject [(''message'', JVal (JStr (invalid_data_source ''bogus'')))], 422), ?db)"
    by (simp add: lb)
  from raw valid a b c show ?thesis by blast
qed

end
